theory Spec2Isabelle
  imports Main "HOL-Library.Word" "HOL-Library.Sublist"
begin

unbundle bit_operations_syntax

section \<open>reWiFi: the station-mode connection supervisor\<close>

text \<open>
  The embedding follows the current implementation in \<^verbatim>\<open>src/src/reWiFi.cpp\<close> (the module
  that starts at line 985 of that file and defines the bits
  \<^verbatim>\<open>_WIFI_STA_DISCONNECT_STOP\<close> and \<^verbatim>\<open>_WIFI_STA_DISCONNECT_RESTORE\<close>).
  Module-level statics become the fields of one record that every function takes and returns.
  Calls into the vendor driver, the timer service, FreeRTOS and the key-value store are
  appended to a trace; the status each call returns is an input (the \<open>driver\<close> argument).
  A leading underscore of a C name is written \<open>u_\<close>.
\<close>

subsection \<open>Configuration (project\_config.h, taken as a parameter)\<close>

type_synonym esp_err_t = int
type_synonym EventBits_t = "32 word"
type_synonym credentials = "string \<times> string"

record project_config =
  CONFIG_WIFI_SSID :: "credentials option"
    \<comment> \<open>single-network mode when defined: \<^verbatim>\<open>CONFIG_WIFI_SSID\<close> with \<^verbatim>\<open>CONFIG_WIFI_PASS\<close>\<close>
  CONFIG_WIFI_1_SSID :: credentials
  CONFIG_WIFI_2_SSID :: "credentials option"
  CONFIG_WIFI_3_SSID :: "credentials option"
  CONFIG_WIFI_4_SSID :: "credentials option"
  CONFIG_WIFI_5_SSID :: "credentials option"
  CONFIG_WIFI_RESTART_ATTEMPTS :: "32 word"
  CONFIG_WIFI_RECONNECT_ATTEMPTS :: "32 word"
  CONFIG_WIFI_STORAGE :: bool
  CONFIG_WIFI_BANDWIDTH :: bool
  CONFIG_WIFI_LONGRANGE :: bool
  CONFIG_WIFI_TIMER_RESTART_DEVICE :: nat

subsection \<open>The outside world\<close>

datatype wifi_mode_t = WIFI_MODE_NULL | WIFI_MODE_STA

datatype event_id =
    WIFI_EVENT_STA_START
  | WIFI_EVENT_STA_CONNECTED
  | WIFI_EVENT_STA_DISCONNECTED
  | WIFI_EVENT_STA_BEACON_TIMEOUT
  | WIFI_EVENT_STA_STOP
  | IP_EVENT_STA_GOT_IP
  | IP_EVENT_STA_LOST_IP

text \<open>Every primitive the module calls outside itself.\<close>

datatype drv_call =
    xEventGroupCreate
  | paramsRegisterGroup
  | espRestartTimerInit
  | espRestartTimerStartM
  | espRestartTimerBreak
  | espRestartTimerFree
  | esp_event_loop_create_default
  | esp_netif_init
  | esp_netif_destroy
  | esp_netif_create_default_wifi_sta
  | esp_wifi_init
  | nvsInit
  | esp_wifi_set_storage
  | esp_event_handler_register event_id
  | esp_event_handler_unregister event_id
  | esp_wifi_set_mode wifi_mode_t
  | esp_wifi_deinit
  | esp_wifi_set_bandwidth
  | esp_wifi_set_protocol
  | esp_wifi_set_config string string
  | esp_wifi_start
  | esp_wifi_stop
  | esp_wifi_connect
  | esp_wifi_disconnect
  | esp_wifi_restore
  | esp_timer_create
  | esp_timer_start_once
  | esp_timer_stop
  | esp_timer_delete
  | nvsRead
  | nvsWrite "8 word"
  | vTaskDelay

text \<open>
  The status returned by the \<open>n\<close>-th call the module makes. It is an input of the model:
  nothing is assumed about which calls succeed.
\<close>

type_synonym driver = "nat \<Rightarrow> drv_call \<Rightarrow> esp_err_t"

definition ESP_OK :: esp_err_t where
  "ESP_OK = 0"

definition ESP_ERR_INVALID_STATE :: esp_err_t where
  "ESP_ERR_INVALID_STATE = 259"

definition all_ok :: driver where
  "all_ok = (\<lambda>n c. ESP_OK)"

text \<open>Notifications posted to the event loop \<^verbatim>\<open>RE_WIFI_EVENTS\<close>, with their payload.\<close>

type_synonym ip_info = "32 word \<times> 32 word \<times> 32 word"

datatype re_wifi_event =
    RE_WIFI_STA_INIT
  | RE_WIFI_STA_STARTED
  | RE_WIFI_STA_STOPPED
  | RE_WIFI_STA_DISCONNECTED "8 word option"
  | RE_WIFI_STA_GOT_IP "ip_info option"

subsection \<open>Module state\<close>

record wifi_state =
  wifiStatusBits :: "EventBits_t option"
    \<comment> \<open>the event group \<^verbatim>\<open>_wifiStatusBits\<close>; \<open>None\<close> is \<^verbatim>\<open>nullptr\<close>\<close>
  wifiAttemptCount :: "32 word"
  wifiNetif :: bool
    \<comment> \<open>\<^verbatim>\<open>_wifiNetif\<close> is not null\<close>
  wifiLastErr :: "8 word"
  wifiMaxIndex :: "8 word"
  wifiCurrIndex :: "8 word"
  wifiIndexNeedChange :: bool
  wifiIndexWasChanged :: bool
  wifiTimer :: "bool option"
    \<comment> \<open>\<^verbatim>\<open>_wifiTimer\<close>: \<open>None\<close> is \<^verbatim>\<open>nullptr\<close>, \<open>Some a\<close> a timer with \<^verbatim>\<open>esp_timer_is_active\<close> = \<open>a\<close>\<close>
  nvsIndex :: "8 word option"
    \<comment> \<open>the value stored under group "wifi", key "index", if any\<close>
  posted :: "re_wifi_event list"
  calls :: "drv_call list"

text \<open>The statics as the C initialisers leave them at boot.\<close>

definition boot :: "8 word option \<Rightarrow> wifi_state" where
  "boot stored =
     \<lparr> wifiStatusBits = None, wifiAttemptCount = 0, wifiNetif = False, wifiLastErr = 0,
       wifiMaxIndex = 0, wifiCurrIndex = 0, wifiIndexNeedChange = False,
       wifiIndexWasChanged = False, wifiTimer = None, nvsIndex = stored,
       posted = [], calls = [] \<rparr>"

definition drv :: "driver \<Rightarrow> drv_call \<Rightarrow> wifi_state \<Rightarrow> esp_err_t \<times> wifi_state" where
  "drv env c s = (env (length (calls s)) c, s\<lparr>calls := calls s @ [c]\<rparr>)"

definition eventLoopPost :: "re_wifi_event \<Rightarrow> wifi_state \<Rightarrow> wifi_state" where
  "eventLoopPost ev s = s\<lparr>posted := posted s @ [ev]\<rparr>"

text \<open>
  \<^verbatim>\<open>WIFI_ERROR_CHECK_BOOL(x, msg)\<close>: the enclosing function returns false when the call
  fails, and goes on with the rest of its body otherwise.
\<close>

definition WIFI_ERROR_CHECK_BOOL ::
  "driver \<Rightarrow> drv_call \<Rightarrow> (wifi_state \<Rightarrow> bool \<times> wifi_state) \<Rightarrow> wifi_state \<Rightarrow> bool \<times> wifi_state" where
  "WIFI_ERROR_CHECK_BOOL env c rest s =
     (let (err_rc, s1) = drv env c s in
      if err_rc \<noteq> ESP_OK then (False, s1) else rest s1)"

text \<open>
  The optional device-restart watchdog
  (\<^verbatim>\<open>#if defined(CONFIG_WIFI_TIMER_RESTART_DEVICE) && CONFIG_WIFI_TIMER_RESTART_DEVICE > 0\<close>).
\<close>

definition wdtRestartWiFi :: "project_config \<Rightarrow> driver \<Rightarrow> drv_call \<Rightarrow> wifi_state \<Rightarrow> wifi_state" where
  "wdtRestartWiFi cfg env c s =
     (if CONFIG_WIFI_TIMER_RESTART_DEVICE cfg > 0 then snd (drv env c s) else s)"

subsection \<open>Status bits\<close>

definition BIT :: "nat \<Rightarrow> EventBits_t" where
  "BIT n = push_bit n 1"

definition WIFI_TCPIP_INIT :: EventBits_t where
  "WIFI_TCPIP_INIT = BIT 0"

definition WIFI_LOWLEVEL_INIT :: EventBits_t where
  "WIFI_LOWLEVEL_INIT = BIT 1"

definition WIFI_STA_ENABLED :: EventBits_t where
  "WIFI_STA_ENABLED = BIT 2"

definition WIFI_STA_STARTED :: EventBits_t where
  "WIFI_STA_STARTED = BIT 3"

definition WIFI_STA_CONNECTED :: EventBits_t where
  "WIFI_STA_CONNECTED = BIT 4"

definition WIFI_STA_GOT_IP :: EventBits_t where
  "WIFI_STA_GOT_IP = BIT 5"

definition WIFI_STA_DISCONNECT_STOP :: EventBits_t where
  "WIFI_STA_DISCONNECT_STOP = BIT 6"

definition WIFI_STA_DISCONNECT_RESTORE :: EventBits_t where
  "WIFI_STA_DISCONNECT_RESTORE = BIT 7"

definition wifiStatusGet :: "wifi_state \<Rightarrow> EventBits_t" where
  "wifiStatusGet s = (case wifiStatusBits s of None \<Rightarrow> 0 | Some b \<Rightarrow> b)"

definition wifiStatusSet :: "EventBits_t \<Rightarrow> wifi_state \<Rightarrow> bool \<times> wifi_state" where
  "wifiStatusSet bits s =
     (case wifiStatusBits s of
        None \<Rightarrow> (False, s)
      | Some b \<Rightarrow>
          (let afterSet = b OR bits;
               s1 = s\<lparr>wifiStatusBits := Some afterSet\<rparr>
           in if afterSet AND bits \<noteq> bits then (False, s1) else (True, s1)))"

definition wifiStatusClear :: "EventBits_t \<Rightarrow> wifi_state \<Rightarrow> bool \<times> wifi_state" where
  "wifiStatusClear bits s =
     (case wifiStatusBits s of
        None \<Rightarrow> (False, s)
      | Some prevClear \<Rightarrow>
          (let s1 = s\<lparr>wifiStatusBits := Some (prevClear AND NOT bits)\<rparr>
           in if prevClear AND bits \<noteq> 0 \<and> wifiStatusGet s1 AND bits \<noteq> 0
              then (False, s1) else (True, s1)))"

definition wifiStatusCheck :: "EventBits_t \<Rightarrow> bool \<Rightarrow> wifi_state \<Rightarrow> bool \<times> wifi_state" where
  "wifiStatusCheck bits clearOnExit s =
     (case wifiStatusBits s of
        None \<Rightarrow> (False, s)
      | Some b \<Rightarrow>
          if clearOnExit
          then (b AND bits = bits, s\<lparr>wifiStatusBits := Some (b AND NOT bits)\<rparr>)
          else (b AND bits = bits, s))"

definition wifiIsEnabled :: "wifi_state \<Rightarrow> bool" where
  "wifiIsEnabled s = fst (wifiStatusCheck WIFI_STA_ENABLED False s)"

definition wifiIsConnected :: "wifi_state \<Rightarrow> bool" where
  "wifiIsConnected s = fst (wifiStatusCheck (WIFI_STA_CONNECTED OR WIFI_STA_GOT_IP) False s)"

subsection \<open>Timeout timer\<close>

definition timer_stop :: "driver \<Rightarrow> wifi_state \<Rightarrow> esp_err_t \<times> wifi_state" where
  \<comment> \<open>\<^verbatim>\<open>esp_timer_stop(_wifiTimer)\<close>: the timer is inactive once the call succeeds\<close>
  "timer_stop env s =
     (let (e, s1) = drv env esp_timer_stop s
      in (e, if e = ESP_OK then s1\<lparr>wifiTimer := Some False\<rparr> else s1))"

definition wifiTimeoutCreate :: "driver \<Rightarrow> wifi_state \<Rightarrow> wifi_state" where
  "wifiTimeoutCreate env s =
     (case wifiTimer s of
        Some active \<Rightarrow> if active then snd (timer_stop env s) else s
      | None \<Rightarrow>
          (let (e, s1) = drv env esp_timer_create s
           in if e \<noteq> ESP_OK then s1 else s1\<lparr>wifiTimer := Some False\<rparr>))"

definition wifiTimeoutStart :: "driver \<Rightarrow> wifi_state \<Rightarrow> wifi_state" where
  "wifiTimeoutStart env s =
     (let s1 = (if wifiTimer s = None then wifiTimeoutCreate env s else s)
      in case wifiTimer s1 of
           None \<Rightarrow> s1
         | Some active \<Rightarrow>
             (let s2 = (if active then snd (timer_stop env s1) else s1);
                  (e, s3) = drv env esp_timer_start_once s2
              in if e = ESP_OK then s3\<lparr>wifiTimer := Some True\<rparr> else s3))"

definition wifiTimeoutStop :: "driver \<Rightarrow> wifi_state \<Rightarrow> wifi_state" where
  "wifiTimeoutStop env s =
     (case wifiTimer s of
        None \<Rightarrow> s
      | Some active \<Rightarrow> if active then snd (timer_stop env s) else s)"

definition wifiTimeoutDelete :: "driver \<Rightarrow> wifi_state \<Rightarrow> wifi_state" where
  "wifiTimeoutDelete env s =
     (case wifiTimer s of
        None \<Rightarrow> s
      | Some active \<Rightarrow>
          (let s1 = (if active then snd (timer_stop env s) else s);
               s2 = snd (drv env esp_timer_delete s1)
           in s2\<lparr>wifiTimer := None\<rparr>))"

subsection \<open>Low-level WiFi functions\<close>

definition handled_events :: "event_id list" where
  "handled_events =
     [WIFI_EVENT_STA_START, WIFI_EVENT_STA_CONNECTED, WIFI_EVENT_STA_DISCONNECTED,
      WIFI_EVENT_STA_BEACON_TIMEOUT, WIFI_EVENT_STA_STOP, IP_EVENT_STA_GOT_IP,
      IP_EVENT_STA_LOST_IP]"

fun register_handlers :: "driver \<Rightarrow> event_id list \<Rightarrow> wifi_state \<Rightarrow> bool \<times> wifi_state" where
  "register_handlers env [] s = (True, s)"
| "register_handlers env (e # es) s =
     WIFI_ERROR_CHECK_BOOL env (esp_event_handler_register e) (register_handlers env es) s"

definition wifiRegisterEventHandlers :: "driver \<Rightarrow> wifi_state \<Rightarrow> bool \<times> wifi_state" where
  "wifiRegisterEventHandlers env s = register_handlers env handled_events s"

fun unregister_handlers :: "driver \<Rightarrow> event_id list \<Rightarrow> wifi_state \<Rightarrow> wifi_state" where
  "unregister_handlers env [] s = s"
| "unregister_handlers env (e # es) s =
     unregister_handlers env es (snd (drv env (esp_event_handler_unregister e) s))"

definition wifiUnregisterEventHandlers :: "driver \<Rightarrow> wifi_state \<Rightarrow> wifi_state" where
  "wifiUnregisterEventHandlers env s = unregister_handlers env handled_events s"

definition wifiTcpIpInit :: "driver \<Rightarrow> wifi_state \<Rightarrow> bool \<times> wifi_state" where
  "wifiTcpIpInit env s =
     (let (err, s1) = drv env esp_event_loop_create_default s
      in if \<not> (err = ESP_OK \<or> err = ESP_ERR_INVALID_STATE) then (False, s1)
         else WIFI_ERROR_CHECK_BOOL env esp_netif_init (wifiStatusSet WIFI_TCPIP_INIT) s1)"

definition netif_destroy :: "driver \<Rightarrow> wifi_state \<Rightarrow> wifi_state" where
  \<comment> \<open>\<^verbatim>\<open>if (_wifiNetif) { esp_netif_destroy(_wifiNetif); _wifiNetif = nullptr; }\<close>\<close>
  "netif_destroy env s =
     (if wifiNetif s then (snd (drv env esp_netif_destroy s))\<lparr>wifiNetif := False\<rparr> else s)"

definition wifiLowLevelInit :: "driver \<Rightarrow> project_config \<Rightarrow> wifi_state \<Rightarrow> bool \<times> wifi_state" where
  "wifiLowLevelInit env cfg s =
     (if \<not> fst (wifiStatusCheck WIFI_LOWLEVEL_INIT False s) then
        (let s1 = eventLoopPost RE_WIFI_STA_INIT s;
             (tcpip, s2) = (if \<not> fst (wifiStatusCheck WIFI_TCPIP_INIT False s1)
                            then wifiTcpIpInit env s1 else (True, s1))
         in if \<not> tcpip then (False, s2)
            else
              (let s3 = netif_destroy env s2;
                   (h, s4) = drv env esp_netif_create_default_wifi_sta s3;
                   s5 = s4\<lparr>wifiNetif := (h = ESP_OK)\<rparr>;
                   (err, s6) = drv env esp_wifi_init s5;
                   (err', s7) = (if err = 4353
                                 then drv env esp_wifi_init (snd (drv env nvsInit s6))
                                 else (err, s6))
               in if err' \<noteq> ESP_OK then (False, s7)
                  else
                    (let registerAndSet = (\<lambda>t.
                           (let (reg, t1) = wifiRegisterEventHandlers env t
                            in if reg then wifiStatusSet WIFI_LOWLEVEL_INIT t1 else (False, t1)))
                     in if CONFIG_WIFI_STORAGE cfg
                        then WIFI_ERROR_CHECK_BOOL env esp_wifi_set_storage registerAndSet s7
                        else registerAndSet s7)))
      else (False, s))"

definition wifiLowLevelDeinit :: "driver \<Rightarrow> wifi_state \<Rightarrow> bool \<times> wifi_state" where
  "wifiLowLevelDeinit env s =
     (if fst (wifiStatusCheck WIFI_LOWLEVEL_INIT False s) then
        WIFI_ERROR_CHECK_BOOL env (esp_wifi_set_mode WIFI_MODE_NULL)
          (\<lambda>s1. WIFI_ERROR_CHECK_BOOL env esp_wifi_deinit
                   (\<lambda>s2. wifiStatusClear WIFI_LOWLEVEL_INIT (netif_destroy env s2))
                   (wifiUnregisterEventHandlers env s1)) s
      else (True, s))"

subsection \<open>Configure STA mode\<close>

definition wifiGetMaxIndex :: "project_config \<Rightarrow> 8 word" where
  "wifiGetMaxIndex cfg =
     (if CONFIG_WIFI_SSID cfg \<noteq> None then 0
      else if CONFIG_WIFI_5_SSID cfg \<noteq> None then 5
      else if CONFIG_WIFI_4_SSID cfg \<noteq> None then 4
      else if CONFIG_WIFI_3_SSID cfg \<noteq> None then 3
      else if CONFIG_WIFI_2_SSID cfg \<noteq> None then 2
      else 1)"

text \<open>
  The \<^verbatim>\<open>switch (_wifiCurrIndex)\<close> of \<^verbatim>\<open>wifiGetSSID\<close> and \<^verbatim>\<open>wifiConnectSTA\<close>: a
  \<^verbatim>\<open>case\<close> exists only for a profile that is defined, every other index takes the
  \<^verbatim>\<open>default\<close> branch.
\<close>

definition switch_profile :: "project_config \<Rightarrow> 8 word \<Rightarrow> credentials" where
  "switch_profile cfg i =
     (if i = 1 then CONFIG_WIFI_1_SSID cfg
      else if i = 2 \<and> CONFIG_WIFI_2_SSID cfg \<noteq> None then the (CONFIG_WIFI_2_SSID cfg)
      else if i = 3 \<and> CONFIG_WIFI_3_SSID cfg \<noteq> None then the (CONFIG_WIFI_3_SSID cfg)
      else if i = 4 \<and> CONFIG_WIFI_4_SSID cfg \<noteq> None then the (CONFIG_WIFI_4_SSID cfg)
      else if i = 5 \<and> CONFIG_WIFI_5_SSID cfg \<noteq> None then the (CONFIG_WIFI_5_SSID cfg)
      else CONFIG_WIFI_1_SSID cfg)"

definition wifiGetSSID :: "project_config \<Rightarrow> wifi_state \<Rightarrow> string" where
  "wifiGetSSID cfg s =
     (case CONFIG_WIFI_SSID cfg of
        Some single \<Rightarrow> fst single
      | None \<Rightarrow> fst (switch_profile cfg (wifiCurrIndex s)))"

text \<open>
  \<^verbatim>\<open>nvsRead(wifiNvsGroup, wifiNvsIndex, OPT_TYPE_U8, &_wifiCurrIndex)\<close>: the variable
  receives the stored value when there is one and is left alone otherwise.
\<close>

definition nvsRead_index :: "wifi_state \<Rightarrow> wifi_state" where
  "nvsRead_index s =
     (let s1 = s\<lparr>calls := calls s @ [nvsRead]\<rparr>
      in case nvsIndex s1 of None \<Rightarrow> s1 | Some v \<Rightarrow> s1\<lparr>wifiCurrIndex := v\<rparr>)"

definition nvsWrite_index :: "driver \<Rightarrow> wifi_state \<Rightarrow> wifi_state" where
  "nvsWrite_index env s =
     (let (e, s1) = drv env (nvsWrite (wifiCurrIndex s)) s
      in if e = ESP_OK then s1\<lparr>nvsIndex := Some (wifiCurrIndex s)\<rparr> else s1)"

text \<open>The multi-network block of \<^verbatim>\<open>wifiConnectSTA\<close> that settles the index (lines 1456-1474).\<close>

definition select_index :: "project_config \<Rightarrow> wifi_state \<Rightarrow> wifi_state" where
  "select_index cfg s =
     (if wifiCurrIndex s = 0 then
        (let s1 = nvsRead_index
                    (s\<lparr>wifiMaxIndex := wifiGetMaxIndex cfg, wifiIndexNeedChange := False,
                       wifiIndexWasChanged := False\<rparr>)
         in if wifiCurrIndex s1 = 0
            then s1\<lparr>wifiCurrIndex := 1, wifiIndexNeedChange := True, wifiIndexWasChanged := True\<rparr>
            else s1)
      else if wifiIndexNeedChange s then
        (let i = wifiCurrIndex s + 1
         in s\<lparr>wifiCurrIndex := (if i > wifiMaxIndex s then 1 else i),
              wifiIndexWasChanged := True\<rparr>)
      else s)"

definition wifiConnectSTA :: "driver \<Rightarrow> project_config \<Rightarrow> wifi_state \<Rightarrow> bool \<times> wifi_state" where
  "wifiConnectSTA env cfg s =
     (let s1 = (case CONFIG_WIFI_SSID cfg of Some single \<Rightarrow> s | None \<Rightarrow> select_index cfg s);
          conf = (case CONFIG_WIFI_SSID cfg of
                    Some single \<Rightarrow> single
                  | None \<Rightarrow> switch_profile cfg (wifiCurrIndex s1))
      in WIFI_ERROR_CHECK_BOOL env (esp_wifi_set_config (fst conf) (snd conf))
           (\<lambda>s2. WIFI_ERROR_CHECK_BOOL env esp_wifi_connect (\<lambda>s4. (True, s4))
                    (wifiTimeoutStart env (s2\<lparr>wifiAttemptCount := wifiAttemptCount s2 + 1\<rparr>)))
           s1)"

subsection \<open>Internal functions\<close>

definition u_wifiStartSTA :: "driver \<Rightarrow> project_config \<Rightarrow> wifi_state \<Rightarrow> bool \<times> wifi_state" where
  "u_wifiStartSTA env cfg s =
     (let start = WIFI_ERROR_CHECK_BOOL env esp_wifi_start (\<lambda>t. (True, wifiTimeoutStart env t));
          longrange = (if CONFIG_WIFI_LONGRANGE cfg
                       then WIFI_ERROR_CHECK_BOOL env esp_wifi_set_protocol start else start);
          bandwidth = (if CONFIG_WIFI_BANDWIDTH cfg
                       then WIFI_ERROR_CHECK_BOOL env esp_wifi_set_bandwidth longrange
                       else longrange)
      in WIFI_ERROR_CHECK_BOOL env (esp_wifi_set_mode WIFI_MODE_STA) bandwidth s)"

definition u_wifiDisconnectSTA :: "driver \<Rightarrow> EventBits_t \<Rightarrow> wifi_state \<Rightarrow> bool \<times> wifi_state" where
  "u_wifiDisconnectSTA env next_stage s =
     WIFI_ERROR_CHECK_BOOL env esp_wifi_disconnect (\<lambda>t. (True, wifiTimeoutStart env t))
       (if next_stage > 0 then snd (wifiStatusSet next_stage s) else s)"

definition u_wifiStopSTA :: "driver \<Rightarrow> wifi_state \<Rightarrow> bool \<times> wifi_state" where
  "u_wifiStopSTA env s = WIFI_ERROR_CHECK_BOOL env esp_wifi_stop (\<lambda>t. (True, t)) s"

definition u_wifiRestoreSTA :: "driver \<Rightarrow> wifi_state \<Rightarrow> bool \<times> wifi_state" where
  "u_wifiRestoreSTA env s =
     WIFI_ERROR_CHECK_BOOL env esp_wifi_restore (\<lambda>t. (True, wifiTimeoutStart env t)) s"

definition wifiStartWiFi :: "driver \<Rightarrow> project_config \<Rightarrow> wifi_state \<Rightarrow> bool \<times> wifi_state" where
  "wifiStartWiFi env cfg s =
     (if \<not> fst (wifiStatusCheck WIFI_STA_STARTED False s) then u_wifiStartSTA env cfg s
      else (True, s))"

definition wifiStopWiFi :: "driver \<Rightarrow> wifi_state \<Rightarrow> bool \<times> wifi_state" where
  "wifiStopWiFi env s =
     (if fst (wifiStatusCheck WIFI_STA_CONNECTED False s)
      then u_wifiDisconnectSTA env WIFI_STA_DISCONNECT_STOP s
      else if fst (wifiStatusCheck WIFI_STA_STARTED False s) then u_wifiStopSTA env s
      else (True, s))"

definition wifiRestartWiFi :: "driver \<Rightarrow> project_config \<Rightarrow> wifi_state \<Rightarrow> bool \<times> wifi_state" where
  "wifiRestartWiFi env cfg s =
     (if fst (wifiStatusCheck WIFI_STA_CONNECTED False s)
      then u_wifiDisconnectSTA env WIFI_STA_DISCONNECT_RESTORE s
      else if fst (wifiStatusCheck WIFI_STA_STARTED False s) then u_wifiStopSTA env s
      else u_wifiStartSTA env cfg s)"

definition wifiReconnectWiFi :: "driver \<Rightarrow> project_config \<Rightarrow> wifi_state \<Rightarrow> bool \<times> wifi_state" where
  "wifiReconnectWiFi env cfg s =
     (let (stop, s1) = wifiStatusCheck WIFI_STA_DISCONNECT_STOP True s
      in if stop then u_wifiStopSTA env s1
         else
           (let (restore, s2) = wifiStatusCheck WIFI_STA_DISCONNECT_RESTORE True s1
            in if restore then u_wifiRestoreSTA env s2
               else if fst (wifiStatusCheck WIFI_STA_ENABLED False s2) then
                 (if fst (wifiStatusCheck WIFI_STA_STARTED False s2) then
                    (if wifiAttemptCount s2 > CONFIG_WIFI_RESTART_ATTEMPTS cfg
                     then wifiRestartWiFi env cfg s2
                     else
                       (let s3 = (if wifiAttemptCount s2 > CONFIG_WIFI_RECONNECT_ATTEMPTS cfg
                                     \<and> CONFIG_WIFI_SSID cfg = None
                                  then s2\<lparr>wifiIndexNeedChange := True\<rparr> else s2);
                            s4 = (if CONFIG_WIFI_SSID cfg \<noteq> None \<or> \<not> wifiIndexNeedChange s3
                                  then snd (drv env vTaskDelay s3) else s3)
                        in wifiConnectSTA env cfg s4))
                  else u_wifiStartSTA env cfg s2)
               else (False, snd (wifiStopWiFi env s2))))"

definition wifiTimeoutEnd :: "driver \<Rightarrow> project_config \<Rightarrow> wifi_state \<Rightarrow> wifi_state" where
  "wifiTimeoutEnd env cfg s =
     (let (ok, s1) = wifiReconnectWiFi env cfg s
      in if \<not> ok then snd (u_wifiStopSTA env (snd (u_wifiRestoreSTA env s1))) else s1)"

subsection \<open>WiFi event handlers\<close>

definition WIFI_REASON_UNSPECIFIED :: "8 word" where
  "WIFI_REASON_UNSPECIFIED = 1"

definition WIFI_REASON_BEACON_TIMEOUT :: "8 word" where
  "WIFI_REASON_BEACON_TIMEOUT = 200"

definition wifiEventHandler_Start :: "driver \<Rightarrow> project_config \<Rightarrow> wifi_state \<Rightarrow> wifi_state" where
  "wifiEventHandler_Start env cfg s =
     (let s1 = snd (wifiStatusSet (WIFI_STA_ENABLED OR WIFI_STA_STARTED) s);
          s2 = snd (wifiStatusClear (WIFI_STA_CONNECTED OR WIFI_STA_GOT_IP
                      OR WIFI_STA_DISCONNECT_STOP OR WIFI_STA_DISCONNECT_RESTORE) s1);
          s3 = s2\<lparr>wifiAttemptCount := 0, wifiLastErr := 0\<rparr>;
          s4 = eventLoopPost RE_WIFI_STA_STARTED s3;
          s5 = wdtRestartWiFi cfg env espRestartTimerStartM s4;
          (ok, s6) = wifiConnectSTA env cfg s5
      in if \<not> ok then snd (u_wifiStopSTA env s6) else s6)"

definition wifiEventHandler_Connect :: "driver \<Rightarrow> project_config \<Rightarrow> wifi_state \<Rightarrow> wifi_state" where
  "wifiEventHandler_Connect env cfg s =
     (let s1 = snd (wifiStatusSet WIFI_STA_CONNECTED s);
          s2 = snd (wifiStatusClear (WIFI_STA_GOT_IP OR WIFI_STA_DISCONNECT_STOP
                      OR WIFI_STA_DISCONNECT_RESTORE) s1);
          s3 = (if CONFIG_WIFI_SSID cfg = None then
                  (let t = s2\<lparr>wifiIndexNeedChange := False\<rparr>
                   in if wifiIndexWasChanged t
                      then (nvsWrite_index env t)\<lparr>wifiIndexWasChanged := False\<rparr> else t)
                else s2)
      in wifiTimeoutStart env s3)"

text \<open>
  The tail shared by the three branches of the disconnect handler:
  \<^verbatim>\<open>if (!wifiReconnectWiFi()) { _wifiRestoreSTA(); _wifiStopSTA(); }\<close>.
\<close>

definition next_attempt :: "driver \<Rightarrow> project_config \<Rightarrow> wifi_state \<Rightarrow> wifi_state" where
  "next_attempt env cfg s =
     (let (ok, s1) = wifiReconnectWiFi env cfg s
      in if \<not> ok then snd (u_wifiStopSTA env (snd (u_wifiRestoreSTA env s1))) else s1)"

text \<open>
  One handler serves \<^verbatim>\<open>WIFI_EVENT_STA_DISCONNECTED\<close>, \<^verbatim>\<open>WIFI_EVENT_STA_BEACON_TIMEOUT\<close> and
  \<^verbatim>\<open>IP_EVENT_STA_LOST_IP\<close>. \<open>event_data\<close> is the reason of a
  \<^verbatim>\<open>wifi_event_sta_disconnected_t\<close>, \<open>None\<close> for a null pointer.
\<close>

definition wifiEventHandler_Disconnect ::
  "driver \<Rightarrow> project_config \<Rightarrow> event_id \<Rightarrow> 8 word option \<Rightarrow> wifi_state \<Rightarrow> wifi_state" where
  "wifiEventHandler_Disconnect env cfg event event_data s =
     (let prevStatusBits = wifiStatusGet s;
          isWasConnected = (prevStatusBits AND WIFI_STA_CONNECTED = WIFI_STA_CONNECTED);
          isWasIP = (prevStatusBits AND WIFI_STA_GOT_IP = WIFI_STA_GOT_IP);
          s1 = snd (wifiStatusClear (WIFI_STA_CONNECTED OR WIFI_STA_GOT_IP) s);
          s2 = wifiTimeoutStop env s1;
          s3 = wdtRestartWiFi cfg env espRestartTimerStartM s2
      in if fst (wifiStatusCheck WIFI_STA_ENABLED False s3) then
           (if event = WIFI_EVENT_STA_BEACON_TIMEOUT then
              (let s4 = s3\<lparr>wifiLastErr := WIFI_REASON_BEACON_TIMEOUT\<rparr>;
                   s5 = (if isWasConnected \<and> isWasIP
                         then eventLoopPost (RE_WIFI_STA_DISCONNECTED None) s4 else s4)
               in next_attempt env cfg s5)
            else if event = IP_EVENT_STA_LOST_IP then
              next_attempt env cfg (eventLoopPost (RE_WIFI_STA_DISCONNECTED None) s3)
            else
              (let s4 = s3\<lparr>wifiLastErr :=
                            (case event_data of Some reason \<Rightarrow> reason
                                              | None \<Rightarrow> WIFI_REASON_UNSPECIFIED)\<rparr>;
                   s5 = (if isWasConnected \<and> isWasIP
                         then eventLoopPost (RE_WIFI_STA_DISCONNECTED event_data) s4 else s4)
               in next_attempt env cfg s5))
         else snd (wifiStopWiFi env s3))"

definition wifiEventHandler_Stop :: "driver \<Rightarrow> project_config \<Rightarrow> wifi_state \<Rightarrow> wifi_state" where
  "wifiEventHandler_Stop env cfg s =
     (let s1 = snd (wifiStatusClear (WIFI_STA_STARTED OR WIFI_STA_CONNECTED OR WIFI_STA_GOT_IP) s);
          s2 = eventLoopPost RE_WIFI_STA_STOPPED s1;
          s3 = wifiTimeoutDelete env s2
      in if fst (wifiStatusCheck WIFI_STA_ENABLED False s3)
         then snd (wifiStartWiFi env cfg s3)
         else snd (wifiLowLevelDeinit env (wdtRestartWiFi cfg env espRestartTimerStartM s3)))"

definition wifiEventHandler_GotIP ::
  "driver \<Rightarrow> project_config \<Rightarrow> ip_info option \<Rightarrow> wifi_state \<Rightarrow> wifi_state" where
  "wifiEventHandler_GotIP env cfg event_data s =
     (let s1 = snd (wifiStatusSet WIFI_STA_GOT_IP s);
          s2 = s1\<lparr>wifiAttemptCount := 0, wifiLastErr := 0\<rparr>;
          s3 = eventLoopPost (RE_WIFI_STA_GOT_IP event_data) s2;
          s4 = wifiTimeoutDelete env s3
      in wdtRestartWiFi cfg env espRestartTimerBreak s4)"

subsection \<open>Public functions\<close>

definition wifiInit :: "driver \<Rightarrow> project_config \<Rightarrow> wifi_state \<Rightarrow> bool \<times> wifi_state" where
  "wifiInit env cfg s =
     (let (created, s1) =
            (if wifiStatusBits s = None then
               (let (h, t) = drv env xEventGroupCreate s
                in if h \<noteq> ESP_OK then (False, t)
                   else (True, t\<lparr>wifiStatusBits := Some (0 AND NOT 0x00FFFFFF)\<rparr>))
             else (True, s))
      in if \<not> created then (False, s1)
         else (True, wdtRestartWiFi cfg env espRestartTimerInit
                       (snd (drv env paramsRegisterGroup s1))))"

definition wifiStop :: "driver \<Rightarrow> wifi_state \<Rightarrow> bool \<times> wifi_state" where
  "wifiStop env s = wifiStopWiFi env (snd (wifiStatusClear WIFI_STA_ENABLED s))"

definition wifiStart :: "driver \<Rightarrow> project_config \<Rightarrow> wifi_state \<Rightarrow> bool \<times> wifi_state" where
  "wifiStart env cfg s =
     (let (ret1, s1) = (if wifiStatusBits s = None then wifiInit env cfg s else (True, s));
          (ret2, s2) = (if ret1 then wifiStop env s1 else (ret1, s1));
          (ret3, s3) = (if ret2 then wifiLowLevelInit env cfg s2 else (ret2, s2));
          (ret4, s4) = (if ret3 then wifiStatusSet WIFI_STA_ENABLED s3 else (ret3, s3))
      in if ret4 then wifiStartWiFi env cfg s4 else (ret4, s4))"

definition wifiFree :: "driver \<Rightarrow> project_config \<Rightarrow> wifi_state \<Rightarrow> bool \<times> wifi_state" where
  "wifiFree env cfg s =
     (let (stopped, s1) = wifiStop env s
      in if \<not> stopped then (False, s1)
         else (True, wdtRestartWiFi cfg env espRestartTimerFree (s1\<lparr>wifiStatusBits := None\<rparr>)))"

subsection \<open>Runs of the supervisor\<close>

text \<open>
  What can happen to the module: the driver delivers one of the events the handlers are
  registered for, the timeout timer fires, or a caller invokes a public function.
\<close>

datatype action =
    Adapter_started
  | Link_connected
  | Disconnected event_id "8 word option"
  | Adapter_stopped
  | Got_ip "ip_info option"
  | Timer_fired
  | Call_wifiInit
  | Call_wifiStart
  | Call_wifiStop
  | Call_wifiFree

definition perform :: "driver \<Rightarrow> project_config \<Rightarrow> action \<Rightarrow> wifi_state \<Rightarrow> wifi_state" where
  "perform env cfg a s =
     (case a of
        Adapter_started \<Rightarrow> wifiEventHandler_Start env cfg s
      | Link_connected \<Rightarrow> wifiEventHandler_Connect env cfg s
      | Disconnected event event_data \<Rightarrow> wifiEventHandler_Disconnect env cfg event event_data s
      | Adapter_stopped \<Rightarrow> wifiEventHandler_Stop env cfg s
      | Got_ip event_data \<Rightarrow> wifiEventHandler_GotIP env cfg event_data s
      | Timer_fired \<Rightarrow>
          wifiTimeoutEnd env cfg
            (case wifiTimer s of None \<Rightarrow> s | Some active \<Rightarrow> s\<lparr>wifiTimer := Some False\<rparr>)
      | Call_wifiInit \<Rightarrow> snd (wifiInit env cfg s)
      | Call_wifiStart \<Rightarrow> snd (wifiStart env cfg s)
      | Call_wifiStop \<Rightarrow> snd (wifiStop env s)
      | Call_wifiFree \<Rightarrow> snd (wifiFree env cfg s))"

fun run :: "driver \<Rightarrow> project_config \<Rightarrow> action list \<Rightarrow> wifi_state \<Rightarrow> wifi_state" where
  "run env cfg [] s = s"
| "run env cfg (a # as) s = run env cfg as (perform env cfg a s)"

section \<open>Notions used to state the properties\<close>

text \<open>The calls made between two states of one execution.\<close>

definition issued :: "wifi_state \<Rightarrow> wifi_state \<Rightarrow> drv_call list" where
  "issued s s' = drop (length (calls s)) (calls s')"

definition connects :: "wifi_state \<Rightarrow> nat" where
  "connects s = count_list (calls s) esp_wifi_connect"

text \<open>
  A step is steady for a mask when it leaves the status bits under the mask alone, changes
  the attempt counter only by the number of \<^verbatim>\<open>esp_wifi_connect\<close> calls it makes, and
  only appends to the trace.
\<close>

definition steady :: "EventBits_t \<Rightarrow> wifi_state \<Rightarrow> wifi_state \<Rightarrow> bool" where
  "steady m s s' =
     (wifiStatusGet s' AND m = wifiStatusGet s AND m \<and>
      wifiAttemptCount s' - of_nat (connects s') = wifiAttemptCount s - of_nat (connects s) \<and>
      prefix (calls s) (calls s'))"

definition timer_calls :: "drv_call set" where
  "timer_calls = {esp_timer_create, esp_timer_start_once, esp_timer_stop, esp_timer_delete}"

definition timer_only :: "wifi_state \<Rightarrow> wifi_state \<Rightarrow> bool" where
  "timer_only s s' = (\<exists>cs t. s' = s\<lparr>wifiTimer := t, calls := calls s @ cs\<rparr> \<and> set cs \<subseteq> timer_calls)"

text \<open>An index matches a configured profile when the \<^verbatim>\<open>switch\<close> has a \<^verbatim>\<open>case\<close> for it.\<close>

definition configured :: "project_config \<Rightarrow> 8 word \<Rightarrow> bool" where
  "configured cfg i =
     (i = 1 \<or> (i = 2 \<and> CONFIG_WIFI_2_SSID cfg \<noteq> None) \<or> (i = 3 \<and> CONFIG_WIFI_3_SSID cfg \<noteq> None)
      \<or> (i = 4 \<and> CONFIG_WIFI_4_SSID cfg \<noteq> None) \<or> (i = 5 \<and> CONFIG_WIFI_5_SSID cfg \<noteq> None))"

text \<open>A three-profile configuration with thresholds 3 and 6, for concrete instances.\<close>

definition example_config :: project_config where
  "example_config =
     \<lparr> CONFIG_WIFI_SSID = None, CONFIG_WIFI_1_SSID = (''home'', ''secret1''),
       CONFIG_WIFI_2_SSID = Some (''office'', ''secret2''),
       CONFIG_WIFI_3_SSID = Some (''phone'', ''secret3''),
       CONFIG_WIFI_4_SSID = None, CONFIG_WIFI_5_SSID = None,
       CONFIG_WIFI_RESTART_ATTEMPTS = 6, CONFIG_WIFI_RECONNECT_ATTEMPTS = 3,
       CONFIG_WIFI_STORAGE = False, CONFIG_WIFI_BANDWIDTH = False,
       CONFIG_WIFI_LONGRANGE = False, CONFIG_WIFI_TIMER_RESTART_DEVICE = 0 \<rparr>"

definition is_set_config :: "drv_call \<Rightarrow> bool" where
  "is_set_config c = (case c of esp_wifi_set_config a b \<Rightarrow> True | _ \<Rightarrow> False)"

definition stop_calls :: "drv_call set" where
  "stop_calls = timer_calls \<union> {esp_wifi_disconnect, esp_wifi_stop, esp_wifi_restore}"

definition stop_only :: "wifi_state \<Rightarrow> wifi_state \<Rightarrow> bool" where
  "stop_only s s' =
     (\<exists>cs t b. s' = s\<lparr>wifiStatusBits := b, wifiTimer := t, calls := calls s @ cs\<rparr>
        \<and> set cs \<subseteq> stop_calls)"

definition ESP_FAIL :: esp_err_t where
  "ESP_FAIL = - 1"

definition busy_once :: driver where
  "busy_once = (\<lambda>n c. if n = 0 then ESP_FAIL else ESP_OK)"

definition requests :: "wifi_state \<Rightarrow> wifi_state \<Rightarrow> drv_call list" where
  "requests s s' = filter (\<lambda>c. c \<notin> timer_calls) (issued s s')"

definition stop_bits :: "EventBits_t \<Rightarrow> EventBits_t" where
  "stop_bits b =
     (if b AND WIFI_STA_CONNECTED = WIFI_STA_CONNECTED
      then (b AND NOT WIFI_STA_ENABLED) OR WIFI_STA_DISCONNECT_STOP
      else b AND NOT WIFI_STA_ENABLED)"

text \<open>A step is silent when it posts no notification and keeps the recorded reason.\<close>

definition silent :: "wifi_state \<Rightarrow> wifi_state \<Rightarrow> bool" where
  "silent s s' = (posted s' = posted s \<and> wifiLastErr s' = wifiLastErr s)"

definition LINK :: EventBits_t where
  "LINK = WIFI_STA_CONNECTED OR WIFI_STA_GOT_IP"

text \<open>The two places that write zero into the attempt counter.\<close>

definition resets :: "action \<Rightarrow> bool" where
  "resets a = (case a of Adapter_started \<Rightarrow> True | Got_ip event_data \<Rightarrow> True | _ \<Rightarrow> False)"

text \<open>The invariant of the two link bits, and runs in which got-ip finds the link connected.\<close>

definition link_ok :: "wifi_state \<Rightarrow> bool" where
  "link_ok s =
     (wifiStatusGet s AND WIFI_STA_GOT_IP = WIFI_STA_GOT_IP \<longrightarrow>
      wifiStatusGet s AND WIFI_STA_CONNECTED = WIFI_STA_CONNECTED)"

fun ordered :: "driver \<Rightarrow> project_config \<Rightarrow> action list \<Rightarrow> wifi_state \<Rightarrow> bool" where
  "ordered env cfg [] s = True"
| "ordered env cfg (a # as) s =
     ((case a of
         Got_ip event_data \<Rightarrow> wifiStatusGet s AND WIFI_STA_CONNECTED = WIFI_STA_CONNECTED
       | _ \<Rightarrow> True)
      \<and> ordered env cfg as (perform env cfg a s))"




section \<open>Auxiliary facts\<close>

subsection \<open>Bits of a status word\<close>

lemma bit_BIT: "bit (BIT n) k = (k = n \<and> n < 32)"
  unfolding BIT_def by (auto simp add: bit_simps)

lemma word32_eq_iff: "(a = b) = (\<forall>n<32. bit a n = bit b n)" for a b :: "32 word"
  by (auto intro: bit_word_eqI)

lemma has_bit: "n < 32 \<Longrightarrow> (b AND BIT n = BIT n) = bit b n"
  by (auto simp add: word32_eq_iff bit_simps bit_BIT)

lemma has_two:
  "n < 32 \<Longrightarrow> m < 32 \<Longrightarrow> (b AND (BIT n OR BIT m) = BIT n OR BIT m) = (bit b n \<and> bit b m)"
  by (auto simp add: word32_eq_iff bit_simps bit_BIT)

lemma nz_bit: "n < 32 \<Longrightarrow> (b AND BIT n = 0) = (\<not> bit b n)"
  by (auto simp add: word32_eq_iff bit_simps bit_BIT)

subsection \<open>The timer functions touch the timer and the trace only\<close>

lemma timer_only_refl: "timer_only s s"
  unfolding timer_only_def
  by (rule exI [of _ "[]"], rule exI [of _ "wifiTimer s"]) simp

lemma timer_only_drv:
  assumes "c \<in> timer_calls" and "timer_only s0 s"
  shows "timer_only s0 (snd (drv env c s))"
proof -
  from assms(2) obtain cs t where s: "s = s0\<lparr>wifiTimer := t, calls := calls s0 @ cs\<rparr>"
    and cs: "set cs \<subseteq> timer_calls"
    unfolding timer_only_def by blast
  have "snd (drv env c s) = s0\<lparr>wifiTimer := t, calls := calls s0 @ (cs @ [c])\<rparr>"
    by (simp add: drv_def s)
  moreover have "set (cs @ [c]) \<subseteq> timer_calls"
    using cs assms(1) by simp
  ultimately show ?thesis
    unfolding timer_only_def by blast
qed

lemma timer_only_set:
  assumes "timer_only s0 s"
  shows "timer_only s0 (s\<lparr>wifiTimer := x\<rparr>)"
proof -
  from assms obtain cs t where s: "s = s0\<lparr>wifiTimer := t, calls := calls s0 @ cs\<rparr>"
    and cs: "set cs \<subseteq> timer_calls"
    unfolding timer_only_def by blast
  have "s\<lparr>wifiTimer := x\<rparr> = s0\<lparr>wifiTimer := x, calls := calls s0 @ cs\<rparr>"
    by (simp add: s)
  then show ?thesis
    unfolding timer_only_def using cs by blast
qed

lemma timer_only_timer_stop:
  "timer_only s0 s \<Longrightarrow> timer_only s0 (snd (timer_stop env s))"
  unfolding timer_stop_def
  by (auto simp: case_prod_beta Let_def timer_calls_def intro!: timer_only_set timer_only_drv)

lemma timer_only_Create:
  "timer_only s0 s \<Longrightarrow> timer_only s0 (wifiTimeoutCreate env s)"
  unfolding wifiTimeoutCreate_def
  by (auto simp: case_prod_beta Let_def timer_calls_def split: option.splits
      intro!: timer_only_set timer_only_drv timer_only_timer_stop)

lemma timer_only_Stop:
  "timer_only s0 s \<Longrightarrow> timer_only s0 (wifiTimeoutStop env s)"
  unfolding wifiTimeoutStop_def
  by (auto split: option.splits intro!: timer_only_timer_stop)

lemma timer_only_Start:
  "timer_only s0 s \<Longrightarrow> timer_only s0 (wifiTimeoutStart env s)"
  unfolding wifiTimeoutStart_def
  by (auto simp: case_prod_beta Let_def timer_calls_def split: option.splits
      intro!: timer_only_set timer_only_drv timer_only_timer_stop timer_only_Create)

lemma timer_only_Delete:
  "timer_only s0 s \<Longrightarrow> timer_only s0 (wifiTimeoutDelete env s)"
  unfolding wifiTimeoutDelete_def
  by (auto simp: case_prod_beta Let_def timer_calls_def split: option.splits
      intro!: timer_only_set timer_only_drv timer_only_timer_stop)

lemma timer_only_fields:
  assumes "timer_only s s'"
  shows "wifiStatusBits s' = wifiStatusBits s" "wifiAttemptCount s' = wifiAttemptCount s"
    "wifiNetif s' = wifiNetif s" "wifiLastErr s' = wifiLastErr s"
    "wifiMaxIndex s' = wifiMaxIndex s" "wifiCurrIndex s' = wifiCurrIndex s"
    "wifiIndexNeedChange s' = wifiIndexNeedChange s"
    "wifiIndexWasChanged s' = wifiIndexWasChanged s" "nvsIndex s' = nvsIndex s"
    "posted s' = posted s"
  using assms unfolding timer_only_def by auto


lemma timer_only_calls:
  assumes "timer_only s s'"
  shows "prefix (calls s) (calls s')" "connects s' = connects s"
  using assms unfolding timer_only_def connects_def timer_calls_def
  by (auto simp: count_list_0_iff)

subsection \<open>Steps that keep the masked status bits and the attempt accounting\<close>

lemma steady_refl: "steady m s s"
  by (simp add: steady_def)

lemma steady_timer_only:
  assumes "timer_only s s'" and "steady m s0 s"
  shows "steady m s0 s'"
  using assms(2) timer_only_fields(1,2) [OF assms(1)] timer_only_calls [OF assms(1)]
  unfolding steady_def wifiStatusGet_def
  by (auto intro: prefix_order.trans)

lemma steady_drv:
  "c \<noteq> esp_wifi_connect \<Longrightarrow> steady m s0 s \<Longrightarrow> steady m s0 (snd (drv env c s))"
  unfolding steady_def drv_def connects_def wifiStatusGet_def
  by (auto intro: prefix_order.trans)

lemma steady_upd [simp]:
  "steady m s0 (s\<lparr>wifiNetif := a\<rparr>) = steady m s0 s"
  "steady m s0 (s\<lparr>wifiLastErr := b\<rparr>) = steady m s0 s"
  "steady m s0 (s\<lparr>wifiMaxIndex := c\<rparr>) = steady m s0 s"
  "steady m s0 (s\<lparr>wifiCurrIndex := d\<rparr>) = steady m s0 s"
  "steady m s0 (s\<lparr>wifiIndexNeedChange := e\<rparr>) = steady m s0 s"
  "steady m s0 (s\<lparr>wifiIndexWasChanged := f\<rparr>) = steady m s0 s"
  "steady m s0 (s\<lparr>wifiTimer := g\<rparr>) = steady m s0 s"
  "steady m s0 (s\<lparr>nvsIndex := h\<rparr>) = steady m s0 s"
  "steady m s0 (s\<lparr>posted := i\<rparr>) = steady m s0 s"
  by (simp_all add: steady_def connects_def wifiStatusGet_def)

lemma steady_post: "steady m s0 s \<Longrightarrow> steady m s0 (eventLoopPost ev s)"
  by (simp add: eventLoopPost_def)

lemma steady_wdt: "steady m s0 s \<Longrightarrow> c \<noteq> esp_wifi_connect \<Longrightarrow> steady m s0 (wdtRestartWiFi cfg env c s)"
  by (simp add: wdtRestartWiFi_def steady_drv)

lemma and_or_mask: "(b OR bits) AND m = b AND m" if "bits AND m = 0" for b :: "32 word"
proof -
  have "(b OR bits) AND m = (b AND m) OR (bits AND m)"
    by (simp add: bit.conj_disj_distrib2)
  then show ?thesis using that by simp
qed

lemma and_not_mask: "(b AND NOT bits) AND m = b AND m" if "bits AND m = 0" for b :: "32 word"
proof (rule bit_word_eqI)
  fix n assume "n < LENGTH(32)"
  have "\<not> (bit bits n \<and> bit m n)"
    using that by (metis bit_and_iff bit_0_eq bot_apply bot_bool_def)
  then show "bit ((b AND NOT bits) AND m) n = bit (b AND m) n"
    using \<open>n < LENGTH(32)\<close> by (auto simp: bit_simps)
qed

lemma steady_Set:
  "bits AND m = 0 \<Longrightarrow> steady m s0 s \<Longrightarrow> steady m s0 (snd (wifiStatusSet bits s))"
  unfolding steady_def wifiStatusSet_def wifiStatusGet_def connects_def
  by (auto simp: Let_def and_or_mask split: option.splits)

lemma steady_Clear:
  "bits AND m = 0 \<Longrightarrow> steady m s0 s \<Longrightarrow> steady m s0 (snd (wifiStatusClear bits s))"
  unfolding steady_def wifiStatusClear_def wifiStatusGet_def connects_def
  by (auto simp: Let_def and_not_mask split: option.splits)

lemma steady_Check:
  "(clearOnExit \<longrightarrow> bits AND m = 0) \<Longrightarrow> steady m s0 s \<Longrightarrow>
   steady m s0 (snd (wifiStatusCheck bits clearOnExit s))"
  unfolding steady_def wifiStatusCheck_def wifiStatusGet_def connects_def
  by (auto simp: Let_def and_not_mask split: option.splits)

lemma steady_CHECK:
  assumes "c \<noteq> esp_wifi_connect" and "steady m s0 s"
    and "\<And>t. steady m s0 t \<Longrightarrow> steady m s0 (snd (rest t))"
  shows "steady m s0 (snd (WIFI_ERROR_CHECK_BOOL env c rest s))"
  unfolding WIFI_ERROR_CHECK_BOOL_def
  using assms by (auto simp: case_prod_beta steady_drv)

lemmas steady_timers =
  steady_timer_only [OF timer_only_Start [OF timer_only_refl]]
  steady_timer_only [OF timer_only_Stop [OF timer_only_refl]]
  steady_timer_only [OF timer_only_Delete [OF timer_only_refl]]
  steady_timer_only [OF timer_only_Create [OF timer_only_refl]]


lemma steady_nvsRead: "steady m s0 s \<Longrightarrow> steady m s0 (nvsRead_index s)"
  unfolding nvsRead_index_def Let_def
  by (auto simp: steady_def connects_def wifiStatusGet_def split: option.splits
      intro: prefix_order.trans)

lemma steady_nvsWrite: "steady m s0 s \<Longrightarrow> steady m s0 (nvsWrite_index env s)"
  unfolding nvsWrite_index_def
  by (auto simp: case_prod_beta steady_drv)

lemma steady_select: "steady m s0 s \<Longrightarrow> steady m s0 (select_index cfg s)"
  unfolding select_index_def Let_def
  by (auto intro!: steady_nvsRead)

lemma steady_connect_step:
  assumes "steady m s0 s"
  shows "steady m s0
           (snd (drv env esp_wifi_connect
              (wifiTimeoutStart env (s\<lparr>wifiAttemptCount := wifiAttemptCount s + 1\<rparr>))))"
proof -
  let ?t = "s\<lparr>wifiAttemptCount := wifiAttemptCount s + 1\<rparr>"
  let ?u = "wifiTimeoutStart env ?t"
  have tu: "timer_only ?t ?u"
    by (rule timer_only_Start [OF timer_only_refl])
  have "wifiStatusBits ?u = wifiStatusBits s" "wifiAttemptCount ?u = wifiAttemptCount s + 1"
    "connects ?u = connects s" "prefix (calls s) (calls ?u)"
    using timer_only_fields(1,2) [OF tu] timer_only_calls [OF tu]
    by (simp_all add: connects_def)
  then show ?thesis
    using assms unfolding steady_def drv_def connects_def wifiStatusGet_def
    by (auto intro: prefix_order.trans)
qed

lemma steady_ConnectSTA:
  "steady m s0 s \<Longrightarrow> steady m s0 (snd (wifiConnectSTA env cfg s))"
  unfolding wifiConnectSTA_def Let_def WIFI_ERROR_CHECK_BOOL_def
  by (auto simp: case_prod_beta steady_drv steady_select steady_connect_step
      split: option.splits)

lemma steady_StartSTA:
  "steady m s0 s \<Longrightarrow> steady m s0 (snd (u_wifiStartSTA env cfg s))"
  unfolding u_wifiStartSTA_def Let_def
  by (auto intro!: steady_CHECK steady_timers)

lemma steady_DisconnectSTA:
  "next_stage AND m = 0 \<Longrightarrow> steady m s0 s \<Longrightarrow>
   steady m s0 (snd (u_wifiDisconnectSTA env next_stage s))"
  unfolding u_wifiDisconnectSTA_def
  by (auto intro!: steady_CHECK steady_timers steady_Set)

lemma steady_StopSTA:
  "steady m s0 s \<Longrightarrow> steady m s0 (snd (u_wifiStopSTA env s))"
  unfolding u_wifiStopSTA_def
  by (auto intro!: steady_CHECK)

lemma steady_RestoreSTA:
  "steady m s0 s \<Longrightarrow> steady m s0 (snd (u_wifiRestoreSTA env s))"
  unfolding u_wifiRestoreSTA_def
  by (auto intro!: steady_CHECK steady_timers)

lemma steady_StartWiFi:
  "steady m s0 s \<Longrightarrow> steady m s0 (snd (wifiStartWiFi env cfg s))"
  unfolding wifiStartWiFi_def
  by (auto intro!: steady_StartSTA)

lemma steady_StopWiFi:
  "WIFI_STA_DISCONNECT_STOP AND m = 0 \<Longrightarrow> steady m s0 s \<Longrightarrow>
   steady m s0 (snd (wifiStopWiFi env s))"
  unfolding wifiStopWiFi_def
  by (auto intro!: steady_DisconnectSTA steady_StopSTA)

lemma steady_RestartWiFi:
  "WIFI_STA_DISCONNECT_RESTORE AND m = 0 \<Longrightarrow> steady m s0 s \<Longrightarrow>
   steady m s0 (snd (wifiRestartWiFi env cfg s))"
  unfolding wifiRestartWiFi_def
  by (auto intro!: steady_DisconnectSTA steady_StopSTA steady_StartSTA)

lemma steady_ReconnectWiFi:
  assumes "WIFI_STA_DISCONNECT_STOP AND m = 0" and "WIFI_STA_DISCONNECT_RESTORE AND m = 0"
    and "steady m s0 s"
  shows "steady m s0 (snd (wifiReconnectWiFi env cfg s))"
proof -
  let ?s1 = "snd (wifiStatusCheck WIFI_STA_DISCONNECT_STOP True s)"
  let ?s2 = "snd (wifiStatusCheck WIFI_STA_DISCONNECT_RESTORE True ?s1)"
  have 1: "steady m s0 ?s1"
    using assms by (auto intro!: steady_Check)
  have 2: "steady m s0 ?s2"
    using assms 1 by (auto intro!: steady_Check)
  show ?thesis
    unfolding wifiReconnectWiFi_def Let_def case_prod_beta
    using assms(1,2) 1 2
    by (auto intro!: steady_StopSTA steady_RestoreSTA steady_RestartWiFi steady_ConnectSTA
        steady_StartSTA steady_StopWiFi steady_drv)
qed

lemma steady_next_attempt:
  assumes "WIFI_STA_DISCONNECT_STOP AND m = 0" and "WIFI_STA_DISCONNECT_RESTORE AND m = 0"
    and "steady m s0 s"
  shows "steady m s0 (next_attempt env cfg s)"
  unfolding next_attempt_def case_prod_beta Let_def
  using assms by (auto intro!: steady_StopSTA steady_RestoreSTA steady_ReconnectWiFi)

lemma steady_TimeoutEnd:
  assumes "WIFI_STA_DISCONNECT_STOP AND m = 0" and "WIFI_STA_DISCONNECT_RESTORE AND m = 0"
    and "steady m s0 s"
  shows "steady m s0 (wifiTimeoutEnd env cfg s)"
  unfolding wifiTimeoutEnd_def case_prod_beta Let_def
  using assms by (auto intro!: steady_StopSTA steady_RestoreSTA steady_ReconnectWiFi)


subsection \<open>Stopping\<close>

lemma check_noclear [simp]: "snd (wifiStatusCheck bits False s) = s"
  by (simp add: wifiStatusCheck_def split: option.splits)

lemma wifiStatusGet_clear:
  "wifiStatusGet (snd (wifiStatusClear bits s)) AND bits = 0"
  unfolding wifiStatusClear_def wifiStatusGet_def
  by (auto simp: Let_def split: option.splits intro!: bit_word_eqI simp: bit_simps)

lemma not_enabled_iff: "wifiIsEnabled s = (wifiStatusGet s AND WIFI_STA_ENABLED \<noteq> 0)"
proof -
  have "(b AND BIT 2 = BIT 2) = (b AND BIT 2 \<noteq> 0)" for b
    by (simp add: has_bit nz_bit)
  then show ?thesis
    unfolding wifiIsEnabled_def wifiStatusCheck_def wifiStatusGet_def WIFI_STA_ENABLED_def
    by (auto split: option.splits)
qed

lemma stop_and_enabled: "WIFI_STA_DISCONNECT_STOP AND WIFI_STA_ENABLED = 0"
  by (simp add: WIFI_STA_DISCONNECT_STOP_def WIFI_STA_ENABLED_def BIT_def)


subsection \<open>The profile selector\<close>

lemma issued_append: "calls s' = calls s @ cs \<Longrightarrow> issued s s' = cs"
  by (simp add: issued_def)

lemma timer_only_appends:
  assumes "timer_only s s'"
  obtains cs where "calls s' = calls s @ cs" and "set cs \<subseteq> timer_calls"
  using assms unfolding timer_only_def by auto

lemma select_index_calls:
  "calls (select_index cfg s) = calls s @ (if wifiCurrIndex s = 0 then [nvsRead] else [])"
  by (simp add: select_index_def nvsRead_index_def Let_def split: option.splits)

lemma connect_fields:
  assumes "CONFIG_WIFI_SSID cfg = None"
  shows "wifiCurrIndex (snd (wifiConnectSTA env cfg s)) = wifiCurrIndex (select_index cfg s)"
    and "wifiMaxIndex (snd (wifiConnectSTA env cfg s)) = wifiMaxIndex (select_index cfg s)"
    and "wifiIndexNeedChange (snd (wifiConnectSTA env cfg s)) = wifiIndexNeedChange (select_index cfg s)"
    and "wifiIndexWasChanged (snd (wifiConnectSTA env cfg s)) = wifiIndexWasChanged (select_index cfg s)"
  using assms
  unfolding wifiConnectSTA_def WIFI_ERROR_CHECK_BOOL_def drv_def Let_def
  by (simp_all add: case_prod_beta timer_only_fields [OF timer_only_Start [OF timer_only_refl]])

lemma connect_calls:
  assumes "CONFIG_WIFI_SSID cfg = None"
  shows "\<exists>cs. calls (snd (wifiConnectSTA env cfg s)) =
           calls (select_index cfg s)
             @ esp_wifi_set_config (fst (switch_profile cfg (wifiCurrIndex (select_index cfg s))))
                 (snd (switch_profile cfg (wifiCurrIndex (select_index cfg s)))) # cs
         \<and> set cs \<subseteq> insert esp_wifi_connect timer_calls"
proof -
  let ?s1 = "select_index cfg s"
  let ?p = "switch_profile cfg (wifiCurrIndex ?s1)"
  let ?s2 = "snd (drv env (esp_wifi_set_config (fst ?p) (snd ?p)) ?s1)"
  let ?s3 = "wifiTimeoutStart env (?s2\<lparr>wifiAttemptCount := wifiAttemptCount ?s2 + 1\<rparr>)"
  let ?t = "?s2\<lparr>wifiAttemptCount := wifiAttemptCount ?s2 + 1\<rparr>"
  have "timer_only ?t ?s3"
    by (rule timer_only_Start [OF timer_only_refl])
  then obtain ds where "calls ?s3 = calls ?t @ ds" and "set ds \<subseteq> timer_calls"
    by (rule timer_only_appends)
  then have ds: "calls ?s3 = calls ?s2 @ ds" "set ds \<subseteq> timer_calls"
    by simp_all
  show ?thesis
    using assms ds
    unfolding wifiConnectSTA_def WIFI_ERROR_CHECK_BOOL_def Let_def
    by (auto simp: case_prod_beta drv_def)
qed


lemma index_succ:
  fixes i m :: "8 word"
  assumes "i \<le> m" and "m < 255"
  shows "(m < i + 1) = (i = m)" and "1 \<le> i + 1" and "i \<noteq> m \<Longrightarrow> i + 1 \<le> m"
proof -
  have le: "unat i \<le> unat m"
    using assms(1) by (simp add: word_le_nat_alt)
  have lt: "unat m < 255"
    using assms(2) by (simp add: word_less_nat_alt)
  have suc: "unat (i + 1) = unat i + 1"
    using le lt by (simp add: unat_word_ariths)
  show "(m < i + 1) = (i = m)"
    using le suc by (auto simp: word_less_nat_alt word_unat_eq_iff)
  show "1 \<le> i + 1"
    using suc by (simp add: word_le_nat_alt)
  show "i + 1 \<le> m" if "i \<noteq> m"
    using that le suc by (auto simp: word_le_nat_alt word_unat_eq_iff)
qed

lemma select_index_advance:
  assumes "wifiIndexNeedChange s" and "1 \<le> wifiCurrIndex s"
    and "wifiCurrIndex s \<le> wifiMaxIndex s" and "wifiMaxIndex s < 255"
  shows "wifiCurrIndex (select_index cfg s) =
           (if wifiCurrIndex s = wifiMaxIndex s then 1 else wifiCurrIndex s + 1)"
    and "wifiMaxIndex (select_index cfg s) = wifiMaxIndex s"
    and "wifiIndexNeedChange (select_index cfg s)"
proof -
  have nz: "wifiCurrIndex s \<noteq> 0"
    using assms(2) by auto
  have gt: "(wifiCurrIndex s + 1 > wifiMaxIndex s) = (wifiCurrIndex s = wifiMaxIndex s)"
    using index_succ [OF assms(3,4)] by simp
  show "wifiCurrIndex (select_index cfg s) =
           (if wifiCurrIndex s = wifiMaxIndex s then 1 else wifiCurrIndex s + 1)"
    using nz gt assms(1) by (simp add: select_index_def Let_def)
  show "wifiMaxIndex (select_index cfg s) = wifiMaxIndex s"
    using nz assms(1) by (simp add: select_index_def Let_def)
  show "wifiIndexNeedChange (select_index cfg s)"
    using nz assms(1) by (simp add: select_index_def Let_def)
qed

lemma switch_profile_default:
  "\<not> configured cfg i \<Longrightarrow> switch_profile cfg i = CONFIG_WIFI_1_SSID cfg"
  by (auto simp: configured_def switch_profile_def)

lemma above_max_not_configured:
  assumes "wifiGetMaxIndex cfg < i" and "CONFIG_WIFI_SSID cfg = None"
  shows "\<not> configured cfg i"
proof -
  have m: "wifiGetMaxIndex cfg \<ge> 1"
    using assms(2) by (simp add: wifiGetMaxIndex_def)
  have "i \<noteq> 1"
    using assms(1) m by auto
  moreover have "i = 2 \<Longrightarrow> CONFIG_WIFI_2_SSID cfg = None"
    using assms by (cases "CONFIG_WIFI_2_SSID cfg") (auto simp: wifiGetMaxIndex_def split: if_splits)
  moreover have "i = 3 \<Longrightarrow> CONFIG_WIFI_3_SSID cfg = None"
    using assms by (cases "CONFIG_WIFI_3_SSID cfg") (auto simp: wifiGetMaxIndex_def split: if_splits)
  moreover have "i = 4 \<Longrightarrow> CONFIG_WIFI_4_SSID cfg = None"
    using assms by (cases "CONFIG_WIFI_4_SSID cfg") (auto simp: wifiGetMaxIndex_def split: if_splits)
  moreover have "i = 5 \<Longrightarrow> CONFIG_WIFI_5_SSID cfg = None"
    using assms by (cases "CONFIG_WIFI_5_SSID cfg") (auto simp: wifiGetMaxIndex_def split: if_splits)
  ultimately show ?thesis
    by (auto simp: configured_def)
qed

lemma filter_timer_connect:
  "set cs \<subseteq> insert esp_wifi_connect timer_calls \<Longrightarrow> filter is_set_config cs = []"
  by (auto simp: filter_empty_conv timer_calls_def is_set_config_def)

lemma connect_configures:
  assumes "CONFIG_WIFI_SSID cfg = None"
  shows "filter is_set_config (issued s (snd (wifiConnectSTA env cfg s))) =
           [esp_wifi_set_config
              (fst (switch_profile cfg (wifiCurrIndex (snd (wifiConnectSTA env cfg s)))))
              (snd (switch_profile cfg (wifiCurrIndex (snd (wifiConnectSTA env cfg s)))))]"
proof -
  obtain cs where cs: "calls (snd (wifiConnectSTA env cfg s)) =
           calls (select_index cfg s)
             @ esp_wifi_set_config (fst (switch_profile cfg (wifiCurrIndex (select_index cfg s))))
                 (snd (switch_profile cfg (wifiCurrIndex (select_index cfg s)))) # cs"
    and sub: "set cs \<subseteq> insert esp_wifi_connect timer_calls"
    using connect_calls [OF assms, of env s] by blast
  have "issued s (snd (wifiConnectSTA env cfg s)) =
          (if wifiCurrIndex s = 0 then [nvsRead] else [])
            @ esp_wifi_set_config (fst (switch_profile cfg (wifiCurrIndex (select_index cfg s))))
                 (snd (switch_profile cfg (wifiCurrIndex (select_index cfg s)))) # cs"
    by (rule issued_append) (simp add: cs select_index_calls)
  then show ?thesis
    using filter_timer_connect [OF sub] connect_fields(1) [OF assms, of env s]
    by (simp add: is_set_config_def)
qed

subsection \<open>The stop path\<close>

lemma stop_only_refl: "stop_only s s"
  unfolding stop_only_def
  by (rule exI [of _ "[]"], rule exI [of _ "wifiTimer s"], rule exI [of _ "wifiStatusBits s"]) simp

lemma stop_only_timer:
  assumes "timer_only s s'" and "stop_only s0 s"
  shows "stop_only s0 s'"
proof -
  from assms(2) obtain cs t b
    where s: "s = s0\<lparr>wifiStatusBits := b, wifiTimer := t, calls := calls s0 @ cs\<rparr>"
      and cs: "set cs \<subseteq> stop_calls"
    unfolding stop_only_def by blast
  from assms(1) obtain ds u where s': "s' = s\<lparr>wifiTimer := u, calls := calls s @ ds\<rparr>"
    and ds: "set ds \<subseteq> timer_calls"
    unfolding timer_only_def by blast
  have "s' = s0\<lparr>wifiStatusBits := b, wifiTimer := u, calls := calls s0 @ (cs @ ds)\<rparr>"
    by (simp add: s s')
  moreover have "set (cs @ ds) \<subseteq> stop_calls"
    using cs ds by (auto simp: stop_calls_def)
  ultimately show ?thesis
    unfolding stop_only_def by blast
qed

lemma stop_only_drv:
  assumes "c \<in> stop_calls" and "stop_only s0 s"
  shows "stop_only s0 (snd (drv env c s))"
proof -
  from assms(2) obtain cs t b
    where s: "s = s0\<lparr>wifiStatusBits := b, wifiTimer := t, calls := calls s0 @ cs\<rparr>"
      and cs: "set cs \<subseteq> stop_calls"
    unfolding stop_only_def by blast
  have "snd (drv env c s) = s0\<lparr>wifiStatusBits := b, wifiTimer := t, calls := calls s0 @ (cs @ [c])\<rparr>"
    by (simp add: drv_def s)
  moreover have "set (cs @ [c]) \<subseteq> stop_calls"
    using cs assms(1) by simp
  ultimately show ?thesis
    unfolding stop_only_def by blast
qed

lemma stop_only_bits:
  assumes "stop_only s0 s"
  shows "stop_only s0 (s\<lparr>wifiStatusBits := x\<rparr>)"
proof -
  from assms obtain cs t b
    where s: "s = s0\<lparr>wifiStatusBits := b, wifiTimer := t, calls := calls s0 @ cs\<rparr>"
      and cs: "set cs \<subseteq> stop_calls"
    unfolding stop_only_def by blast
  have "s\<lparr>wifiStatusBits := x\<rparr> = s0\<lparr>wifiStatusBits := x, wifiTimer := t, calls := calls s0 @ cs\<rparr>"
    by (simp add: s)
  then show ?thesis
    unfolding stop_only_def using cs by blast
qed

lemma stop_only_Set: "stop_only s0 s \<Longrightarrow> stop_only s0 (snd (wifiStatusSet bits s))"
  unfolding wifiStatusSet_def
  by (auto simp: Let_def split: option.splits intro!: stop_only_bits)

lemma stop_only_Clear: "stop_only s0 s \<Longrightarrow> stop_only s0 (snd (wifiStatusClear bits s))"
  unfolding wifiStatusClear_def
  by (auto simp: Let_def split: option.splits intro!: stop_only_bits)

lemma stop_only_CHECK:
  assumes "c \<in> stop_calls" and "stop_only s0 s"
    and "\<And>t. stop_only s0 t \<Longrightarrow> stop_only s0 (snd (rest t))"
  shows "stop_only s0 (snd (WIFI_ERROR_CHECK_BOOL env c rest s))"
  unfolding WIFI_ERROR_CHECK_BOOL_def
  using assms by (auto simp: case_prod_beta stop_only_drv)

lemma stop_only_TimeoutStart: "stop_only s0 s \<Longrightarrow> stop_only s0 (wifiTimeoutStart env s)"
  by (rule stop_only_timer [OF timer_only_Start [OF timer_only_refl]])

lemma stop_only_DisconnectSTA:
  "stop_only s0 s \<Longrightarrow> stop_only s0 (snd (u_wifiDisconnectSTA env next_stage s))"
  unfolding u_wifiDisconnectSTA_def
  by (auto simp: stop_calls_def intro!: stop_only_CHECK stop_only_TimeoutStart stop_only_Set)

lemma stop_only_StopSTA: "stop_only s0 s \<Longrightarrow> stop_only s0 (snd (u_wifiStopSTA env s))"
  unfolding u_wifiStopSTA_def
  by (auto simp: stop_calls_def intro!: stop_only_CHECK)

lemma stop_only_RestoreSTA: "stop_only s0 s \<Longrightarrow> stop_only s0 (snd (u_wifiRestoreSTA env s))"
  unfolding u_wifiRestoreSTA_def
  by (auto simp: stop_calls_def intro!: stop_only_CHECK stop_only_TimeoutStart)

lemma stop_only_StopWiFi: "stop_only s0 s \<Longrightarrow> stop_only s0 (snd (wifiStopWiFi env s))"
  unfolding wifiStopWiFi_def
  by (auto intro!: stop_only_DisconnectSTA stop_only_StopSTA)

lemma stop_only_fields:
  assumes "stop_only s s'"
  shows "wifiAttemptCount s' = wifiAttemptCount s" "wifiLastErr s' = wifiLastErr s"
    "wifiMaxIndex s' = wifiMaxIndex s" "wifiCurrIndex s' = wifiCurrIndex s"
    "wifiIndexNeedChange s' = wifiIndexNeedChange s"
    "wifiIndexWasChanged s' = wifiIndexWasChanged s" "posted s' = posted s"
    "set (issued s s') \<subseteq> stop_calls"
  using assms unfolding stop_only_def issued_def by auto

lemma check_absent_flag:
  assumes "n < 32" and "\<not> fst (wifiStatusCheck (BIT n) False s)"
  shows "wifiStatusCheck (BIT n) True s = (False, s)"
proof (cases "wifiStatusBits s")
  case None
  then show ?thesis by (simp add: wifiStatusCheck_def)
next
  case (Some b)
  then have nb: "\<not> bit b n"
    using assms by (simp add: wifiStatusCheck_def has_bit)
  have "b AND NOT (BIT n) = b"
    using nb by (auto intro!: bit_word_eqI simp: bit_simps bit_BIT)
  then show ?thesis
    using Some nb assms(1) by (simp add: wifiStatusCheck_def has_bit)
qed

lemma wifiStop_bits:
  "wifiStatusBits (snd (wifiStop env s)) = map_option stop_bits (wifiStatusBits s)"
proof -
  have ts: "wifiStatusBits (wifiTimeoutStart env t) = wifiStatusBits t" for t
    by (rule timer_only_fields(1) [OF timer_only_Start [OF timer_only_refl]])
  have conn: "(b AND NOT WIFI_STA_ENABLED) AND WIFI_STA_CONNECTED = WIFI_STA_CONNECTED
                \<longleftrightarrow> b AND WIFI_STA_CONNECTED = WIFI_STA_CONNECTED" for b
    unfolding WIFI_STA_ENABLED_def WIFI_STA_CONNECTED_def
    by (simp add: has_bit bit_simps bit_BIT)
  have pos: "WIFI_STA_DISCONNECT_STOP > 0"
    by (simp add: WIFI_STA_DISCONNECT_STOP_def BIT_def)
  show ?thesis
    unfolding wifiStop_def wifiStopWiFi_def u_wifiDisconnectSTA_def u_wifiStopSTA_def
      WIFI_ERROR_CHECK_BOOL_def drv_def
    by (cases "wifiStatusBits s")
      (auto simp: wifiStatusClear_def wifiStatusCheck_def wifiStatusSet_def wifiStatusGet_def
        Let_def case_prod_beta ts conn pos stop_bits_def)
qed

lemma stop_bits_idem: "stop_bits (stop_bits b) = stop_bits b"
  unfolding stop_bits_def WIFI_STA_ENABLED_def WIFI_STA_CONNECTED_def WIFI_STA_DISCONNECT_STOP_def
  by (auto simp: has_bit bit_simps bit_BIT intro!: bit_word_eqI)

lemma stop_bits_enabled: "stop_bits b AND WIFI_STA_ENABLED = 0"
  unfolding stop_bits_def WIFI_STA_ENABLED_def WIFI_STA_CONNECTED_def WIFI_STA_DISCONNECT_STOP_def
  by (auto simp: has_bit bit_simps bit_BIT intro!: bit_word_eqI)

lemma requests_timer: "set cs \<subseteq> timer_calls \<Longrightarrow> filter (\<lambda>c. c \<notin> timer_calls) cs = []"
  by (auto simp: filter_empty_conv)

lemma wifiStopWiFi_requests:
  "requests s (snd (wifiStopWiFi env s)) =
     (if fst (wifiStatusCheck WIFI_STA_CONNECTED False s) then [esp_wifi_disconnect]
      else if fst (wifiStatusCheck WIFI_STA_STARTED False s) then [esp_wifi_stop] else [])"
  "fst (wifiStopWiFi env s) =
     (if fst (wifiStatusCheck WIFI_STA_CONNECTED False s)
      then env (length (calls s)) esp_wifi_disconnect = ESP_OK
      else if fst (wifiStatusCheck WIFI_STA_STARTED False s)
      then env (length (calls s)) esp_wifi_stop = ESP_OK else True)"
proof -
  let ?t = "snd (wifiStatusSet WIFI_STA_DISCONNECT_STOP s)"
  let ?u = "snd (drv env esp_wifi_disconnect ?t)"
  have ct: "calls ?t = calls s"
    by (simp add: wifiStatusSet_def Let_def split: option.splits)
  have "timer_only ?u (wifiTimeoutStart env ?u)"
    by (rule timer_only_Start [OF timer_only_refl])
  then obtain ds where ds: "calls (wifiTimeoutStart env ?u) = calls ?u @ ds" "set ds \<subseteq> timer_calls"
    by (rule timer_only_appends)
  have n: "esp_wifi_disconnect \<notin> timer_calls" "esp_wifi_stop \<notin> timer_calls"
    by (simp_all add: timer_calls_def)
  have pos: "WIFI_STA_DISCONNECT_STOP > 0"
    by (simp add: WIFI_STA_DISCONNECT_STOP_def BIT_def)
  show "requests s (snd (wifiStopWiFi env s)) =
     (if fst (wifiStatusCheck WIFI_STA_CONNECTED False s) then [esp_wifi_disconnect]
      else if fst (wifiStatusCheck WIFI_STA_STARTED False s) then [esp_wifi_stop] else [])"
    unfolding wifiStopWiFi_def u_wifiDisconnectSTA_def u_wifiStopSTA_def WIFI_ERROR_CHECK_BOOL_def
      requests_def issued_def
    using ds ct n pos requests_timer [OF ds(2)]
    by (auto simp: case_prod_beta drv_def)
  show "fst (wifiStopWiFi env s) =
     (if fst (wifiStatusCheck WIFI_STA_CONNECTED False s)
      then env (length (calls s)) esp_wifi_disconnect = ESP_OK
      else if fst (wifiStatusCheck WIFI_STA_STARTED False s)
      then env (length (calls s)) esp_wifi_stop = ESP_OK else True)"
    unfolding wifiStopWiFi_def u_wifiDisconnectSTA_def u_wifiStopSTA_def WIFI_ERROR_CHECK_BOOL_def
    using ct pos
    by (auto simp: case_prod_beta drv_def)
qed


lemma clear_enabled_checks:
  "fst (wifiStatusCheck WIFI_STA_CONNECTED False (snd (wifiStatusClear WIFI_STA_ENABLED s)))
     = fst (wifiStatusCheck WIFI_STA_CONNECTED False s)"
  "fst (wifiStatusCheck WIFI_STA_STARTED False (snd (wifiStatusClear WIFI_STA_ENABLED s)))
     = fst (wifiStatusCheck WIFI_STA_STARTED False s)"
  "calls (snd (wifiStatusClear WIFI_STA_ENABLED s)) = calls s"
  unfolding wifiStatusCheck_def wifiStatusClear_def WIFI_STA_ENABLED_def WIFI_STA_CONNECTED_def
    WIFI_STA_STARTED_def
  by (auto simp: Let_def has_bit bit_simps bit_BIT split: option.splits)

subsection \<open>Escalation posts nothing\<close>

lemma silent_refl: "silent s s"
  by (simp add: silent_def)

lemma silent_upd [simp]:
  "silent s0 (s\<lparr>wifiStatusBits := a\<rparr>) = silent s0 s"
  "silent s0 (s\<lparr>wifiAttemptCount := b\<rparr>) = silent s0 s"
  "silent s0 (s\<lparr>wifiMaxIndex := c\<rparr>) = silent s0 s"
  "silent s0 (s\<lparr>wifiCurrIndex := d\<rparr>) = silent s0 s"
  "silent s0 (s\<lparr>wifiIndexNeedChange := e\<rparr>) = silent s0 s"
  "silent s0 (s\<lparr>wifiIndexWasChanged := f\<rparr>) = silent s0 s"
  "silent s0 (s\<lparr>wifiTimer := g\<rparr>) = silent s0 s"
  "silent s0 (s\<lparr>calls := h\<rparr>) = silent s0 s"
  by (simp_all add: silent_def)

lemma silent_timer_only: "timer_only s s' \<Longrightarrow> silent s0 s \<Longrightarrow> silent s0 s'"
  using timer_only_fields(4,10) [of s s'] by (simp add: silent_def)

lemmas silent_TimeoutStart = silent_timer_only [OF timer_only_Start [OF timer_only_refl]]

lemma silent_drv: "silent s0 s \<Longrightarrow> silent s0 (snd (drv env c s))"
  by (simp add: drv_def)

lemma silent_Set: "silent s0 s \<Longrightarrow> silent s0 (snd (wifiStatusSet bits s))"
  by (simp add: wifiStatusSet_def Let_def split: option.splits)

lemma silent_Check: "silent s0 s \<Longrightarrow> silent s0 (snd (wifiStatusCheck bits c s))"
  by (simp add: wifiStatusCheck_def split: option.splits)

lemma silent_CHECK:
  assumes "silent s0 s" and "\<And>t. silent s0 t \<Longrightarrow> silent s0 (snd (rest t))"
  shows "silent s0 (snd (WIFI_ERROR_CHECK_BOOL env c rest s))"
  unfolding WIFI_ERROR_CHECK_BOOL_def
  using assms by (auto simp: case_prod_beta silent_drv)

lemma silent_select: "silent s0 s \<Longrightarrow> silent s0 (select_index cfg s)"
  unfolding select_index_def nvsRead_index_def Let_def
  by (auto split: option.splits)

lemma silent_ConnectSTA: "silent s0 s \<Longrightarrow> silent s0 (snd (wifiConnectSTA env cfg s))"
  unfolding wifiConnectSTA_def Let_def
  by (auto split: option.splits intro!: silent_CHECK silent_TimeoutStart silent_select)

lemma silent_StartSTA: "silent s0 s \<Longrightarrow> silent s0 (snd (u_wifiStartSTA env cfg s))"
  unfolding u_wifiStartSTA_def Let_def
  by (auto intro!: silent_CHECK silent_TimeoutStart)

lemma silent_DisconnectSTA: "silent s0 s \<Longrightarrow> silent s0 (snd (u_wifiDisconnectSTA env n s))"
  unfolding u_wifiDisconnectSTA_def
  by (auto intro!: silent_CHECK silent_TimeoutStart silent_Set)

lemma silent_StopSTA: "silent s0 s \<Longrightarrow> silent s0 (snd (u_wifiStopSTA env s))"
  unfolding u_wifiStopSTA_def
  by (auto intro!: silent_CHECK)

lemma silent_RestoreSTA: "silent s0 s \<Longrightarrow> silent s0 (snd (u_wifiRestoreSTA env s))"
  unfolding u_wifiRestoreSTA_def
  by (auto intro!: silent_CHECK silent_TimeoutStart)

lemma silent_StopWiFi: "silent s0 s \<Longrightarrow> silent s0 (snd (wifiStopWiFi env s))"
  unfolding wifiStopWiFi_def
  by (auto intro!: silent_DisconnectSTA silent_StopSTA)

lemma silent_RestartWiFi: "silent s0 s \<Longrightarrow> silent s0 (snd (wifiRestartWiFi env cfg s))"
  unfolding wifiRestartWiFi_def
  by (auto intro!: silent_DisconnectSTA silent_StopSTA silent_StartSTA)

lemma silent_ReconnectWiFi:
  assumes "silent s0 s"
  shows "silent s0 (snd (wifiReconnectWiFi env cfg s))"
proof -
  let ?s1 = "snd (wifiStatusCheck WIFI_STA_DISCONNECT_STOP True s)"
  let ?s2 = "snd (wifiStatusCheck WIFI_STA_DISCONNECT_RESTORE True ?s1)"
  have 1: "silent s0 ?s1"
    using assms by (rule silent_Check)
  have 2: "silent s0 ?s2"
    using 1 by (rule silent_Check)
  show ?thesis
    unfolding wifiReconnectWiFi_def Let_def case_prod_beta
    using 1 2
    by (auto intro!: silent_StopSTA silent_RestoreSTA silent_RestartWiFi silent_ConnectSTA
        silent_StartSTA silent_StopWiFi silent_drv)
qed

lemma silent_next_attempt: "silent s0 s \<Longrightarrow> silent s0 (next_attempt env cfg s)"
  unfolding next_attempt_def case_prod_beta Let_def
  by (auto intro!: silent_StopSTA silent_RestoreSTA silent_ReconnectWiFi)

lemma posted_next_attempt: "posted (next_attempt env cfg s) = posted s"
  using silent_next_attempt [OF silent_refl, where env = env and cfg = cfg and s = s]
  by (simp add: silent_def)

lemma lastErr_next_attempt: "wifiLastErr (next_attempt env cfg s) = wifiLastErr s"
  using silent_next_attempt [OF silent_refl, where env = env and cfg = cfg and s = s]
  by (simp add: silent_def)

text \<open>The state in which the disconnect handler tests StaEnabled.\<close>

lemma Disconnect_prelude:
  fixes env cfg s
  defines "s3 \<equiv> wdtRestartWiFi cfg env espRestartTimerStartM
                   (wifiTimeoutStop env (snd (wifiStatusClear (WIFI_STA_CONNECTED OR WIFI_STA_GOT_IP) s)))"
  shows "posted s3 = posted s" and "wifiLastErr s3 = wifiLastErr s"
    and "fst (wifiStatusCheck WIFI_STA_ENABLED False s3) = wifiIsEnabled s"
proof -
  let ?s1 = "snd (wifiStatusClear (WIFI_STA_CONNECTED OR WIFI_STA_GOT_IP) s)"
  let ?s2 = "wifiTimeoutStop env ?s1"
  have t: "timer_only ?s1 ?s2"
    by (rule timer_only_Stop [OF timer_only_refl])
  have b3: "wifiStatusBits s3 = wifiStatusBits ?s1" "posted s3 = posted ?s1"
    "wifiLastErr s3 = wifiLastErr ?s1"
    using timer_only_fields(1,4,10) [OF t]
    by (simp_all add: s3_def wdtRestartWiFi_def drv_def)
  show "posted s3 = posted s"
    using b3(2) by (simp add: wifiStatusClear_def Let_def split: option.splits)
  show "wifiLastErr s3 = wifiLastErr s"
    using b3(3) by (simp add: wifiStatusClear_def Let_def split: option.splits)
  have "(b AND NOT (BIT 4 OR BIT 5)) AND BIT 2 = BIT 2 \<longleftrightarrow> b AND BIT 2 = BIT 2" for b
    by (simp add: has_bit bit_simps bit_BIT)
  then show "fst (wifiStatusCheck WIFI_STA_ENABLED False s3) = wifiIsEnabled s"
    using b3(1)
    unfolding wifiIsEnabled_def wifiStatusCheck_def wifiStatusClear_def WIFI_STA_ENABLED_def
      WIFI_STA_CONNECTED_def WIFI_STA_GOT_IP_def
    by (auto simp: Let_def split: option.splits)
qed

lemma snapshot_both:
  "(wifiStatusGet s AND WIFI_STA_CONNECTED = WIFI_STA_CONNECTED
      \<and> wifiStatusGet s AND WIFI_STA_GOT_IP = WIFI_STA_GOT_IP) = wifiIsConnected s"
  if "wifiStatusBits s \<noteq> None"
  using that
  unfolding wifiIsConnected_def wifiStatusCheck_def wifiStatusGet_def
    WIFI_STA_CONNECTED_def WIFI_STA_GOT_IP_def
  by (auto simp: has_bit has_two)

lemma enabled_has_bits: "wifiIsEnabled s \<Longrightarrow> wifiStatusBits s \<noteq> None"
  by (auto simp: wifiIsEnabled_def wifiStatusCheck_def split: option.splits)

lemma Disconnect_enabled:
  assumes "wifiIsEnabled s"
  shows "posted (wifiEventHandler_Disconnect env cfg event event_data s) =
           posted s @
             (if event = IP_EVENT_STA_LOST_IP then [RE_WIFI_STA_DISCONNECTED None]
              else if wifiIsConnected s
              then [RE_WIFI_STA_DISCONNECTED
                      (if event = WIFI_EVENT_STA_BEACON_TIMEOUT then None else event_data)]
              else [])"
    and "wifiLastErr (wifiEventHandler_Disconnect env cfg event event_data s) =
           (if event = WIFI_EVENT_STA_BEACON_TIMEOUT then WIFI_REASON_BEACON_TIMEOUT
            else if event = IP_EVENT_STA_LOST_IP then wifiLastErr s
            else case event_data of Some reason \<Rightarrow> reason | None \<Rightarrow> WIFI_REASON_UNSPECIFIED)"
    and "\<exists>t. wifiEventHandler_Disconnect env cfg event event_data s = next_attempt env cfg t"
  using assms Disconnect_prelude [of cfg env s] snapshot_both [OF enabled_has_bits [OF assms]]
  unfolding wifiEventHandler_Disconnect_def Let_def
  by (auto simp: posted_next_attempt lastErr_next_attempt eventLoopPost_def)

subsection \<open>Initialisation and the public functions are steady\<close>

lemma LINK_disjoint:
  "WIFI_TCPIP_INIT AND LINK = 0" "WIFI_LOWLEVEL_INIT AND LINK = 0" "WIFI_STA_ENABLED AND LINK = 0"
  "WIFI_STA_STARTED AND LINK = 0" "WIFI_STA_DISCONNECT_STOP AND LINK = 0"
  "WIFI_STA_DISCONNECT_RESTORE AND LINK = 0"
  by (simp_all add: LINK_def WIFI_TCPIP_INIT_def WIFI_LOWLEVEL_INIT_def WIFI_STA_ENABLED_def
      WIFI_STA_STARTED_def WIFI_STA_CONNECTED_def WIFI_STA_GOT_IP_def
      WIFI_STA_DISCONNECT_STOP_def WIFI_STA_DISCONNECT_RESTORE_def BIT_def)

lemma steady_register:
  "steady m s0 s \<Longrightarrow> steady m s0 (snd (register_handlers env es s))"
  by (induction es arbitrary: s) (auto intro!: steady_CHECK)

lemma steady_unregister:
  "steady m s0 s \<Longrightarrow> steady m s0 (unregister_handlers env es s)"
  by (induction es arbitrary: s) (auto intro!: steady_drv)

lemma steady_netif_destroy: "steady m s0 s \<Longrightarrow> steady m s0 (netif_destroy env s)"
  by (simp add: netif_destroy_def steady_drv)

lemma steady_TcpIpInit:
  "WIFI_TCPIP_INIT AND m = 0 \<Longrightarrow> steady m s0 s \<Longrightarrow> steady m s0 (snd (wifiTcpIpInit env s))"
  unfolding wifiTcpIpInit_def
  by (auto simp: case_prod_beta intro!: steady_CHECK steady_Set steady_drv)

lemma steady_LowLevelInit:
  assumes "WIFI_TCPIP_INIT AND m = 0" and "WIFI_LOWLEVEL_INIT AND m = 0" and "steady m s0 s"
  shows "steady m s0 (snd (wifiLowLevelInit env cfg s))"
proof -
  define s1 where "s1 = eventLoopPost RE_WIFI_STA_INIT s"
  define p2 where "p2 = (if \<not> fst (wifiStatusCheck WIFI_TCPIP_INIT False s1)
                         then wifiTcpIpInit env s1 else (True, s1))"
  define s5 where "s5 = (snd (drv env esp_netif_create_default_wifi_sta (netif_destroy env (snd p2))))
                          \<lparr>wifiNetif := (fst (drv env esp_netif_create_default_wifi_sta
                                              (netif_destroy env (snd p2))) = ESP_OK)\<rparr>"
  define p6 where "p6 = drv env esp_wifi_init s5"
  define p7 where "p7 = (if fst p6 = 4353 then drv env esp_wifi_init (snd (drv env nvsInit (snd p6)))
                         else (fst p6, snd p6))"
  define registerAndSet where "registerAndSet = (\<lambda>t.
                           (let (reg, t1) = wifiRegisterEventHandlers env t
                            in if reg then wifiStatusSet WIFI_LOWLEVEL_INIT t1 else (False, t1)))"
  have unfolded: "wifiLowLevelInit env cfg s =
     (if \<not> fst (wifiStatusCheck WIFI_LOWLEVEL_INIT False s) then
        (if \<not> fst p2 then (False, snd p2)
         else if fst p7 \<noteq> ESP_OK then (False, snd p7)
         else if CONFIG_WIFI_STORAGE cfg
              then WIFI_ERROR_CHECK_BOOL env esp_wifi_set_storage registerAndSet (snd p7)
              else registerAndSet (snd p7))
      else (False, s))"
    unfolding wifiLowLevelInit_def s1_def p2_def s5_def p6_def p7_def registerAndSet_def
    by (simp add: Let_def case_prod_beta)
  have 2: "steady m s0 (snd p2)"
    unfolding p2_def s1_def
    using assms by (auto intro!: steady_TcpIpInit steady_post)
  have 5: "steady m s0 s5"
    unfolding s5_def
    using 2 by (auto intro!: steady_drv steady_netif_destroy)
  have 6: "steady m s0 (snd p6)"
    unfolding p6_def using 5 by (auto intro!: steady_drv)
  have 7: "steady m s0 (snd p7)"
    unfolding p7_def using 6 by (auto intro!: steady_drv)
  have reg: "steady m s0 (snd (registerAndSet t))" if "steady m s0 t" for t
    using that assms(2) unfolding wifiRegisterEventHandlers_def registerAndSet_def
    by (auto simp: case_prod_beta intro!: steady_Set steady_register)
  have 8: "steady m s0 (snd (WIFI_ERROR_CHECK_BOOL env esp_wifi_set_storage registerAndSet (snd p7)))"
    by (rule steady_CHECK [OF _ 7 reg]) simp_all
  show ?thesis
    unfolding unfolded
    using assms(3) 2 7 8 reg [OF 7] by simp
qed

lemma steady_LowLevelDeinit:
  assumes "WIFI_LOWLEVEL_INIT AND m = 0" and "steady m s0 s"
  shows "steady m s0 (snd (wifiLowLevelDeinit env s))"
  unfolding wifiLowLevelDeinit_def wifiUnregisterEventHandlers_def
  using assms
  by (auto intro!: steady_CHECK steady_Clear steady_netif_destroy steady_unregister)

lemma steady_Init: "steady m s0 s \<Longrightarrow> wifiStatusBits s = None \<Longrightarrow> steady m s0 (snd (wifiInit env cfg s))"
proof -
  assume s: "steady m s0 s" and n: "wifiStatusBits s = None"
  let ?t = "snd (drv env xEventGroupCreate s)"
  have t: "steady m s0 ?t"
    using s by (auto intro!: steady_drv)
  have "steady m s0 (?t\<lparr>wifiStatusBits := Some (0 AND NOT 0x00FFFFFF)\<rparr>)"
    using t n by (simp add: steady_def wifiStatusGet_def connects_def drv_def)
  then show ?thesis
    unfolding wifiInit_def Let_def case_prod_beta
    using t n by (auto intro!: steady_wdt steady_drv)
qed

lemma steady_Init_any: "steady m s0 s \<Longrightarrow> steady m s0 (snd (wifiInit env cfg s))"
proof (cases "wifiStatusBits s")
  case None
  assume "steady m s0 s"
  then show ?thesis using None by (rule steady_Init)
next
  case (Some b)
  assume "steady m s0 s"
  then show ?thesis
    unfolding wifiInit_def Let_def case_prod_beta
    using Some by (auto intro!: steady_wdt steady_drv)
qed

lemma steady_Stop:
  assumes "WIFI_STA_ENABLED AND m = 0" and "WIFI_STA_DISCONNECT_STOP AND m = 0"
    and "steady m s0 s"
  shows "steady m s0 (snd (wifiStop env s))"
  unfolding wifiStop_def
  using assms by (auto intro!: steady_StopWiFi steady_Clear)

lemma steady_Start:
  assumes "WIFI_TCPIP_INIT AND m = 0" and "WIFI_LOWLEVEL_INIT AND m = 0"
    and "WIFI_STA_ENABLED AND m = 0" and "WIFI_STA_DISCONNECT_STOP AND m = 0"
    and "steady m s0 s"
  shows "steady m s0 (snd (wifiStart env cfg s))"
proof -
  let ?s1 = "snd (if wifiStatusBits s = None then wifiInit env cfg s else (True, s))"
  have 1: "steady m s0 ?s1"
    using assms(5) by (auto intro!: steady_Init_any)
  have 2: "steady m s0 (snd (wifiStop env t))" if "steady m s0 t" for t
    using that assms by (auto intro!: steady_Stop)
  have 3: "steady m s0 (snd (wifiLowLevelInit env cfg t))" if "steady m s0 t" for t
    using that assms by (auto intro!: steady_LowLevelInit)
  have 4: "steady m s0 (snd (wifiStatusSet WIFI_STA_ENABLED t))" if "steady m s0 t" for t
    using that assms by (auto intro!: steady_Set)
  have 5: "steady m s0 (snd (wifiStartWiFi env cfg t))" if "steady m s0 t" for t
    using that by (rule steady_StartWiFi)
  show ?thesis
    unfolding wifiStart_def Let_def case_prod_beta
    using 1 2 3 4 5 by auto
qed

lemma steady_Free:
  assumes "steady 0 s0 s"
  shows "steady 0 s0 (snd (wifiFree env cfg s))"
proof -
  have 1: "steady 0 s0 (snd (wifiStop env s))"
    using assms by (auto intro!: steady_Stop)
  then have "steady 0 s0 ((snd (wifiStop env s))\<lparr>wifiStatusBits := None\<rparr>)"
    by (simp add: steady_def connects_def)
  then show ?thesis
    unfolding wifiFree_def Let_def case_prod_beta
    using 1 by (auto intro!: steady_wdt)
qed

subsection \<open>Accounting of the attempt counter\<close>

lemma account:
  assumes "steady m t s'" and "prefix (calls s) (calls t)" and "connects t = connects s"
  shows "wifiAttemptCount s' =
           wifiAttemptCount t + of_nat (count_list (issued s s') esp_wifi_connect)"
proof -
  from assms(1) have p: "prefix (calls t) (calls s')"
    and b: "wifiAttemptCount s' - of_nat (connects s') = wifiAttemptCount t - of_nat (connects t)"
    by (simp_all add: steady_def)
  from assms(2) p have "prefix (calls s) (calls s')"
    by (rule prefix_order.trans)
  then obtain zs where zs: "calls s' = calls s @ zs"
    by (auto simp: prefix_def)
  then have i: "issued s s' = zs"
    by (simp add: issued_def)
  have "connects s' = connects s + count_list zs esp_wifi_connect"
    by (simp add: connects_def zs)
  then have "wifiAttemptCount s' - (of_nat (connects s) + of_nat (count_list zs esp_wifi_connect))
               = wifiAttemptCount t - of_nat (connects s)"
    using b assms(3) by simp
  then show ?thesis
    by (simp add: i algebra_simps)
qed

lemma steady_zero_Set: "steady 0 s0 s \<Longrightarrow> steady 0 s0 (snd (wifiStatusSet bits s))"
  by (rule steady_Set) simp

lemma steady_zero_Clear: "steady 0 s0 s \<Longrightarrow> steady 0 s0 (snd (wifiStatusClear bits s))"
  by (rule steady_Clear) simp

lemma steady_Connect_handler:
  "steady 0 s0 s \<Longrightarrow> steady 0 s0 (wifiEventHandler_Connect env cfg s)"
  unfolding wifiEventHandler_Connect_def Let_def
  by (auto intro!: steady_timers steady_nvsWrite steady_zero_Set steady_zero_Clear)

lemma steady_Disconnect_handler:
  "steady 0 s0 s \<Longrightarrow> steady 0 s0 (wifiEventHandler_Disconnect env cfg event event_data s)"
  unfolding wifiEventHandler_Disconnect_def Let_def
  by (auto intro!: steady_next_attempt steady_post steady_wdt steady_timers steady_zero_Clear
      steady_StopWiFi)

lemma steady_Stop_handler:
  "steady 0 s0 s \<Longrightarrow> steady 0 s0 (wifiEventHandler_Stop env cfg s)"
  unfolding wifiEventHandler_Stop_def Let_def
  by (auto intro!: steady_StartWiFi steady_LowLevelDeinit steady_post steady_wdt steady_timers
      steady_zero_Clear)

lemma Start_handler_tail:
  fixes env cfg s
  defines "t \<equiv> wdtRestartWiFi cfg env espRestartTimerStartM
      (eventLoopPost RE_WIFI_STA_STARTED
        ((snd (wifiStatusClear (WIFI_STA_CONNECTED OR WIFI_STA_GOT_IP
                      OR WIFI_STA_DISCONNECT_STOP OR WIFI_STA_DISCONNECT_RESTORE)
            (snd (wifiStatusSet (WIFI_STA_ENABLED OR WIFI_STA_STARTED) s))))
           \<lparr>wifiAttemptCount := 0, wifiLastErr := 0\<rparr>))"
  shows "steady m t (wifiEventHandler_Start env cfg s)"
    and "wifiAttemptCount t = 0" and "prefix (calls s) (calls t)" and "connects t = connects s"
    and "wifiStatusGet t AND LINK = 0"
proof -
  show "steady m t (wifiEventHandler_Start env cfg s)"
    unfolding wifiEventHandler_Start_def Let_def case_prod_beta t_def [symmetric]
    by (auto intro!: steady_StopSTA steady_ConnectSTA steady_refl)
  show "wifiAttemptCount t = 0"
    by (simp add: t_def wdtRestartWiFi_def drv_def eventLoopPost_def)
  show "prefix (calls s) (calls t)" "connects t = connects s"
    by (auto simp: t_def wdtRestartWiFi_def drv_def eventLoopPost_def connects_def
        wifiStatusClear_def wifiStatusSet_def Let_def split: option.splits)
  have "(b AND NOT (BIT 4 OR BIT 5 OR BIT 6 OR BIT 7)) AND (BIT 4 OR BIT 5) = 0" for b
    by (auto intro!: bit_word_eqI simp: bit_simps bit_BIT)
  then show "wifiStatusGet t AND LINK = 0"
    by (auto simp: t_def wdtRestartWiFi_def drv_def eventLoopPost_def wifiStatusGet_def
        wifiStatusClear_def wifiStatusSet_def Let_def LINK_def WIFI_STA_CONNECTED_def
        WIFI_STA_GOT_IP_def WIFI_STA_DISCONNECT_STOP_def WIFI_STA_DISCONNECT_RESTORE_def
        split: option.splits)
qed

lemma GotIP_handler_tail:
  fixes env cfg s event_data
  defines "t \<equiv> eventLoopPost (RE_WIFI_STA_GOT_IP event_data)
      ((snd (wifiStatusSet WIFI_STA_GOT_IP s))\<lparr>wifiAttemptCount := 0, wifiLastErr := 0\<rparr>)"
  shows "steady m t (wifiEventHandler_GotIP env cfg event_data s)"
    and "wifiAttemptCount t = 0" and "prefix (calls s) (calls t)" and "connects t = connects s"
    and "wifiStatusGet t = wifiStatusGet (snd (wifiStatusSet WIFI_STA_GOT_IP s))"
proof -
  show "steady m t (wifiEventHandler_GotIP env cfg event_data s)"
    unfolding wifiEventHandler_GotIP_def Let_def t_def [symmetric]
    by (auto intro!: steady_wdt steady_timers steady_refl)
  show "wifiAttemptCount t = 0"
    by (simp add: t_def eventLoopPost_def)
  show "prefix (calls s) (calls t)" "connects t = connects s"
    by (auto simp: t_def eventLoopPost_def connects_def wifiStatusSet_def Let_def
        split: option.splits)
  show "wifiStatusGet t = wifiStatusGet (snd (wifiStatusSet WIFI_STA_GOT_IP s))"
    by (simp add: t_def eventLoopPost_def wifiStatusGet_def)
qed


lemma steady_trans: "steady m s t \<Longrightarrow> steady m t u \<Longrightarrow> steady m s u"
  unfolding steady_def by (auto intro: prefix_order.trans)

lemma steady_perform:
  assumes "\<not> resets a"
  shows "steady 0 s (perform env cfg a s)"
proof (cases a)
  case Timer_fired
  have "steady 0 s (case wifiTimer s of None \<Rightarrow> s | Some active \<Rightarrow> s\<lparr>wifiTimer := Some False\<rparr>)"
    by (simp add: steady_refl split: option.splits)
  then show ?thesis
    unfolding perform_def Timer_fired by (auto intro!: steady_TimeoutEnd)
qed (use assms in \<open>auto simp: perform_def resets_def
      intro!: steady_Connect_handler steady_Disconnect_handler steady_Stop_handler
        steady_Init_any steady_Start steady_Stop steady_Free steady_refl\<close>)

lemma account_perform:
  "wifiAttemptCount (perform env cfg a s) =
     (if resets a then 0 else wifiAttemptCount s)
       + of_nat (count_list (issued s (perform env cfg a s)) esp_wifi_connect)"
proof (cases "resets a")
  case False
  then show ?thesis
    using account [OF steady_perform [OF False, of s env cfg], of s] by simp
next
  case True
  then consider "a = Adapter_started" | d where "a = Got_ip d"
    by (cases a) (auto simp: resets_def)
  then show ?thesis
  proof cases
    case 1
    note st = Start_handler_tail(1) [where cfg = cfg and env = env and s = s and m = 0]
    note tail = Start_handler_tail(2-4) [where cfg = cfg and env = env and s = s]
    show ?thesis
      using account [OF st tail(2) tail(3)] tail(1) True
      by (simp add: 1 perform_def)
  next
    case 2
    note st = GotIP_handler_tail(1)
        [where cfg = cfg and env = env and s = s and m = 0 and event_data = d]
    note tail = GotIP_handler_tail(2-4) [where s = s and event_data = d]
    show ?thesis
      using account [OF st tail(2) tail(3)] tail(1) True
      by (simp add: 2 perform_def)
  qed
qed

lemma steady_run:
  "\<forall>a \<in> set as. \<not> resets a \<Longrightarrow> steady 0 s (run env cfg as s)"
proof (induction as arbitrary: s)
  case Nil
  show ?case by (simp add: steady_refl)
next
  case (Cons a as)
  have "steady 0 s (perform env cfg a s)"
    using Cons.prems by (simp add: steady_perform)
  moreover have "steady 0 (perform env cfg a s) (run env cfg as (perform env cfg a s))"
    using Cons.prems by (intro Cons.IH) simp
  ultimately show ?case
    by (simp add: steady_trans)
qed

lemma GotIP_count: "wifiAttemptCount (wifiEventHandler_GotIP env cfg d s) = 0"
proof -
  let ?t = "eventLoopPost (RE_WIFI_STA_GOT_IP d)
      ((snd (wifiStatusSet WIFI_STA_GOT_IP s))\<lparr>wifiAttemptCount := 0, wifiLastErr := 0\<rparr>)"
  have "timer_only ?t (wifiTimeoutDelete env ?t)"
    by (rule timer_only_Delete [OF timer_only_refl])
  from timer_only_fields(2) [OF this] show ?thesis
    unfolding wifiEventHandler_GotIP_def Let_def
    by (simp add: wdtRestartWiFi_def drv_def eventLoopPost_def)
qed

lemma connect_connects:
  "connects (snd (wifiConnectSTA env cfg s)) \<le> connects s + 1"
  "fst (wifiConnectSTA env cfg s) \<Longrightarrow> connects (snd (wifiConnectSTA env cfg s)) = connects s + 1"
proof -
  have sel: "connects (select_index cfg t) = connects t" for t
    by (simp add: connects_def select_index_calls)
  have ts: "connects (wifiTimeoutStart env t) = connects t" for t
    by (rule timer_only_calls(2) [OF timer_only_Start [OF timer_only_refl]])
  have d: "connects (snd (drv env c t)) = connects t + (if c = esp_wifi_connect then 1 else 0)" for c t
    by (simp add: drv_def connects_def)
  have u: "connects (t\<lparr>wifiAttemptCount := x\<rparr>) = connects t" for t x
    by (simp add: connects_def)
  show "connects (snd (wifiConnectSTA env cfg s)) \<le> connects s + 1"
    unfolding wifiConnectSTA_def WIFI_ERROR_CHECK_BOOL_def Let_def
    by (auto simp: case_prod_beta sel ts d u split: option.splits)
  show "connects (snd (wifiConnectSTA env cfg s)) = connects s + 1" if "fst (wifiConnectSTA env cfg s)"
    using that
    unfolding wifiConnectSTA_def WIFI_ERROR_CHECK_BOOL_def Let_def
    by (auto simp: case_prod_beta sel ts d u split: option.splits if_splits)
qed

lemma issued_connects:
  "prefix (calls s) (calls s') \<Longrightarrow>
   count_list (issued s s') esp_wifi_connect = connects s' - connects s"
  by (auto simp: prefix_def issued_def connects_def)

subsection \<open>The two link bits\<close>

lemma link_ok_bits: "link_ok s = (bit (wifiStatusGet s) 5 \<longrightarrow> bit (wifiStatusGet s) 4)"
  by (simp add: link_ok_def WIFI_STA_GOT_IP_def WIFI_STA_CONNECTED_def has_bit)

lemma LINK_bits:
  "(x AND LINK = y AND LINK) = (bit x 4 = bit y 4 \<and> bit x 5 = bit y 5)"
proof
  assume e: "x AND LINK = y AND LINK"
  have "bit (x AND LINK) 4 = bit (y AND LINK) 4" "bit (x AND LINK) 5 = bit (y AND LINK) 5"
    using e by simp_all
  then show "bit x 4 = bit y 4 \<and> bit x 5 = bit y 5"
    by (simp add: LINK_def WIFI_STA_GOT_IP_def WIFI_STA_CONNECTED_def bit_simps bit_BIT)
next
  assume "bit x 4 = bit y 4 \<and> bit x 5 = bit y 5"
  then show "x AND LINK = y AND LINK"
    unfolding LINK_def WIFI_STA_GOT_IP_def WIFI_STA_CONNECTED_def
    by (auto simp: word32_eq_iff bit_simps bit_BIT)
qed

lemma LINK_zero: "(x AND LINK = 0) = (\<not> bit x 4 \<and> \<not> bit x 5)"
  using LINK_bits [of x 0] by simp

lemma link_ok_steady: "steady LINK s s' \<Longrightarrow> link_ok s' = link_ok s"
  by (simp add: steady_def LINK_bits link_ok_bits)

lemma link_ok_steady_zero:
  "steady LINK t s' \<Longrightarrow> wifiStatusGet t AND LINK = 0 \<Longrightarrow> link_ok s'"
  by (simp add: steady_def LINK_bits LINK_zero link_ok_bits)

lemma link_Start_handler: "link_ok (wifiEventHandler_Start env cfg s)"
  by (rule link_ok_steady_zero [OF Start_handler_tail(1) Start_handler_tail(5)])

lemma link_Disconnect_handler: "link_ok (wifiEventHandler_Disconnect env cfg event d s)"
proof -
  let ?s1 = "snd (wifiStatusClear (WIFI_STA_CONNECTED OR WIFI_STA_GOT_IP) s)"
  have z: "wifiStatusGet ?s1 AND LINK = 0"
    unfolding LINK_def by (rule wifiStatusGet_clear)
  have "steady LINK ?s1 (wifiEventHandler_Disconnect env cfg event d s)"
    unfolding wifiEventHandler_Disconnect_def Let_def
    by (auto simp: LINK_disjoint
        intro!: steady_next_attempt steady_post steady_wdt steady_timers steady_StopWiFi
          steady_refl)
  then show ?thesis
    using z by (rule link_ok_steady_zero)
qed

lemma link_Stop_handler: "link_ok (wifiEventHandler_Stop env cfg s)"
proof -
  let ?s1 = "snd (wifiStatusClear (WIFI_STA_STARTED OR WIFI_STA_CONNECTED OR WIFI_STA_GOT_IP) s)"
  have "wifiStatusGet ?s1 AND (WIFI_STA_STARTED OR WIFI_STA_CONNECTED OR WIFI_STA_GOT_IP) = 0"
    by (rule wifiStatusGet_clear)
  then have z: "wifiStatusGet ?s1 AND LINK = 0"
    unfolding LINK_def WIFI_STA_STARTED_def WIFI_STA_CONNECTED_def WIFI_STA_GOT_IP_def
    by (auto simp: word32_eq_iff bit_simps bit_BIT)
  have "steady LINK ?s1 (wifiEventHandler_Stop env cfg s)"
    unfolding wifiEventHandler_Stop_def Let_def
    by (auto simp: LINK_disjoint
        intro!: steady_StartWiFi steady_LowLevelDeinit steady_post steady_wdt steady_timers
          steady_refl)
  then show ?thesis
    using z by (rule link_ok_steady_zero)
qed

lemma link_Connect_handler: "link_ok (wifiEventHandler_Connect env cfg s)"
proof -
  let ?s2 = "snd (wifiStatusClear (WIFI_STA_GOT_IP OR WIFI_STA_DISCONNECT_STOP
                      OR WIFI_STA_DISCONNECT_RESTORE)
                (snd (wifiStatusSet WIFI_STA_CONNECTED s)))"
  have "\<not> bit ((b OR BIT 4) AND NOT (BIT 5 OR BIT 6 OR BIT 7)) 5" for b :: "32 word"
    by (simp add: bit_simps bit_BIT)
  then have ok: "link_ok ?s2"
    unfolding link_ok_bits wifiStatusGet_def wifiStatusClear_def wifiStatusSet_def
      WIFI_STA_CONNECTED_def WIFI_STA_GOT_IP_def WIFI_STA_DISCONNECT_STOP_def
      WIFI_STA_DISCONNECT_RESTORE_def
    by (auto simp: Let_def split: option.splits)
  have "steady LINK ?s2 (wifiEventHandler_Connect env cfg s)"
    unfolding wifiEventHandler_Connect_def Let_def
    by (auto intro!: steady_timers steady_nvsWrite steady_refl)
  then show ?thesis
    using ok by (simp add: link_ok_steady)
qed

lemma link_GotIP_handler:
  assumes "wifiStatusGet s AND WIFI_STA_CONNECTED = WIFI_STA_CONNECTED"
  shows "link_ok (wifiEventHandler_GotIP env cfg d s)"
proof -
  let ?s1 = "snd (wifiStatusSet WIFI_STA_GOT_IP s)"
  let ?t = "eventLoopPost (RE_WIFI_STA_GOT_IP d) (?s1\<lparr>wifiAttemptCount := 0, wifiLastErr := 0\<rparr>)"
  have "bit (wifiStatusGet s) 4"
    using assms by (simp add: WIFI_STA_CONNECTED_def has_bit)
  then have "bit (wifiStatusGet ?s1) 4"
    unfolding wifiStatusGet_def wifiStatusSet_def WIFI_STA_GOT_IP_def
    by (auto simp: Let_def bit_simps bit_BIT split: option.splits)
  then have "link_ok ?t"
    using GotIP_handler_tail(5) [of d s] by (simp add: link_ok_bits)
  then show ?thesis
    using link_ok_steady [OF GotIP_handler_tail(1) [where m = LINK]] by blast
qed

lemma link_Free: "link_ok s \<Longrightarrow> link_ok (snd (wifiFree env cfg s))"
proof -
  assume ok: "link_ok s"
  have 1: "steady LINK s (snd (wifiStop env s))"
    by (auto intro!: steady_Stop steady_refl simp: LINK_disjoint)
  have 2: "link_ok (wdtRestartWiFi cfg env espRestartTimerFree (t\<lparr>wifiStatusBits := None\<rparr>))" for t
    by (simp add: link_ok_bits wifiStatusGet_def wdtRestartWiFi_def drv_def)
  show ?thesis
    unfolding wifiFree_def Let_def case_prod_beta
    using ok link_ok_steady [OF 1] 2 by auto
qed

lemma link_perform:
  assumes "link_ok s"
    and "\<And>d. a = Got_ip d \<Longrightarrow> wifiStatusGet s AND WIFI_STA_CONNECTED = WIFI_STA_CONNECTED"
  shows "link_ok (perform env cfg a s)"
proof (cases a)
  case Timer_fired
  have "steady LINK s (case wifiTimer s of None \<Rightarrow> s | Some active \<Rightarrow> s\<lparr>wifiTimer := Some False\<rparr>)"
    by (simp add: steady_refl split: option.splits)
  then have "steady LINK s (perform env cfg a s)"
    unfolding perform_def Timer_fired by (auto intro!: steady_TimeoutEnd simp: LINK_disjoint)
  then show ?thesis
    using assms(1) by (simp add: link_ok_steady)
next
  case Call_wifiInit
  have "steady LINK s (perform env cfg a s)"
    unfolding perform_def Call_wifiInit by (auto intro!: steady_Init_any steady_refl)
  then show ?thesis
    using assms(1) by (simp add: link_ok_steady)
next
  case Call_wifiStart
  have "steady LINK s (perform env cfg a s)"
    unfolding perform_def Call_wifiStart
    by (auto intro!: steady_Start steady_refl simp: LINK_disjoint)
  then show ?thesis
    using assms(1) by (simp add: link_ok_steady)
next
  case Call_wifiStop
  have "steady LINK s (perform env cfg a s)"
    unfolding perform_def Call_wifiStop
    by (auto intro!: steady_Stop steady_refl simp: LINK_disjoint)
  then show ?thesis
    using assms(1) by (simp add: link_ok_steady)
qed (use assms in \<open>simp_all add: perform_def link_Start_handler link_Connect_handler
      link_Disconnect_handler link_Stop_handler link_GotIP_handler link_Free\<close>)

lemma link_run:
  "link_ok s \<Longrightarrow> ordered env cfg as s \<Longrightarrow> link_ok (run env cfg as s)"
proof (induction as arbitrary: s)
  case Nil
  then show ?case by simp
next
  case (Cons a as)
  have "link_ok (perform env cfg a s)"
    using Cons.prems by (intro link_perform) auto
  then show ?case
    using Cons.prems Cons.IH by simp
qed

subsection \<open>One failed cycle\<close>


lemmas mask_defs =
  WIFI_STA_ENABLED_def WIFI_STA_STARTED_def WIFI_STA_CONNECTED_def WIFI_STA_GOT_IP_def
  WIFI_STA_DISCONNECT_STOP_def WIFI_STA_DISCONNECT_RESTORE_def
























subsection \<open>The requests of a full stop\<close>

lemma requests_append:
  "calls t = calls s @ cs \<Longrightarrow> calls u = calls t @ ds \<Longrightarrow>
   requests s u = requests s t @ requests t u"
  by (simp add: requests_def issued_def)

lemma StopSTA_calls: "calls (snd (u_wifiStopSTA env s)) = calls s @ [esp_wifi_stop]"
  by (simp add: u_wifiStopSTA_def WIFI_ERROR_CHECK_BOOL_def drv_def)

lemma RestoreSTA_calls:
  "\<exists>ds. calls (snd (u_wifiRestoreSTA env s)) = calls s @ esp_wifi_restore # ds
        \<and> set ds \<subseteq> timer_calls"
proof -
  let ?u = "snd (drv env esp_wifi_restore s)"
  have "timer_only ?u (wifiTimeoutStart env ?u)"
    by (rule timer_only_Start [OF timer_only_refl])
  then obtain ds where ds: "calls (wifiTimeoutStart env ?u) = calls ?u @ ds" "set ds \<subseteq> timer_calls"
    by (rule timer_only_appends)
  show ?thesis
    unfolding u_wifiRestoreSTA_def WIFI_ERROR_CHECK_BOOL_def
    using ds by (auto simp: case_prod_beta drv_def)
qed

lemma StopWiFi_appends: "\<exists>cs. calls (snd (wifiStopWiFi env s)) = calls s @ cs"
proof -
  have "stop_only s (snd (wifiStopWiFi env s))"
    by (rule stop_only_StopWiFi [OF stop_only_refl])
  then show ?thesis
    unfolding stop_only_def by auto
qed

lemma StopWiFi_flag:
  assumes "fst (wifiStatusCheck WIFI_STA_CONNECTED False s)"
  shows "fst (wifiStatusCheck WIFI_STA_DISCONNECT_STOP False (snd (wifiStopWiFi env s)))"
proof -
  from assms obtain b where b: "wifiStatusBits s = Some b"
    by (auto simp: wifiStatusCheck_def split: option.splits)
  let ?t = "snd (wifiStatusSet WIFI_STA_DISCONNECT_STOP s)"
  have ts: "wifiStatusBits (wifiTimeoutStart env t) = wifiStatusBits t" for t
    by (rule timer_only_fields(1) [OF timer_only_Start [OF timer_only_refl]])
  have pos: "WIFI_STA_DISCONNECT_STOP > 0"
    by (simp add: WIFI_STA_DISCONNECT_STOP_def BIT_def)
  have "(b OR WIFI_STA_DISCONNECT_STOP) AND WIFI_STA_DISCONNECT_STOP = WIFI_STA_DISCONNECT_STOP"
    by (auto intro!: bit_word_eqI simp: bit_simps)
  then show ?thesis
    using assms b pos
    unfolding wifiStopWiFi_def u_wifiDisconnectSTA_def WIFI_ERROR_CHECK_BOOL_def drv_def
    by (auto simp: wifiStatusCheck_def wifiStatusSet_def Let_def case_prod_beta ts)
qed

lemma steady_enabled:
  assumes "steady WIFI_STA_ENABLED s s'"
  shows "wifiIsEnabled s' = wifiIsEnabled s"
  using assms unfolding not_enabled_iff steady_def by simp

lemma Disconnect_disabled_stops:
  assumes "\<not> wifiIsEnabled t" and "fst (wifiStatusCheck WIFI_STA_STARTED False t)"
  shows "esp_wifi_stop \<in> set (issued t (wifiEventHandler_Disconnect env cfg ev d t))"
proof -
  define s1 where "s1 = snd (wifiStatusClear (WIFI_STA_CONNECTED OR WIFI_STA_GOT_IP) t)"
  define s2 where "s2 = wifiTimeoutStop env s1"
  define s3 where "s3 = wdtRestartWiFi cfg env espRestartTimerStartM s2"
  from assms(2) obtain b where b: "wifiStatusBits t = Some b" "bit b 3"
    unfolding wifiStatusCheck_def WIFI_STA_STARTED_def
    by (auto simp: has_bit split: option.splits)
  let ?b = "b AND NOT (WIFI_STA_CONNECTED OR WIFI_STA_GOT_IP)"
  have s1: "wifiStatusBits s1 = Some ?b" "calls s1 = calls t"
    using b(1) by (simp_all add: s1_def wifiStatusClear_def Let_def)
  have t: "timer_only s1 s2"
    unfolding s2_def by (rule timer_only_Stop [OF timer_only_refl])
  then obtain ds where ds: "calls s2 = calls s1 @ ds"
    by (auto elim: timer_only_appends)
  have b2: "wifiStatusBits s2 = Some ?b"
    using timer_only_fields(1) [OF t] s1(1) by simp
  obtain ws where s3: "wifiStatusBits s3 = Some ?b" "calls s3 = calls t @ ws"
    using b2 ds s1(2) by (cases "CONFIG_WIFI_TIMER_RESTART_DEVICE cfg > 0")
      (simp_all add: s3_def wdtRestartWiFi_def drv_def)
  have b': "bit ?b 3" "\<not> bit ?b 4"
    using b(2) unfolding mask_defs by (simp_all add: bit_simps bit_BIT)
  have checks: "\<not> fst (wifiStatusCheck WIFI_STA_CONNECTED False s3)"
    "fst (wifiStatusCheck WIFI_STA_STARTED False s3)"
    using b' s3(1) unfolding wifiStatusCheck_def mask_defs by (simp_all add: has_bit)
  have en: "\<not> fst (wifiStatusCheck WIFI_STA_ENABLED False s3)"
    using Disconnect_prelude(3) [of cfg env t] assms(1)
    by (simp add: s3_def s2_def s1_def)
  have "wifiEventHandler_Disconnect env cfg ev d t = snd (wifiStopWiFi env s3)"
    unfolding wifiEventHandler_Disconnect_def Let_def s1_def [symmetric] s2_def [symmetric]
      s3_def [symmetric]
    using en by simp
  also have "\<dots> = snd (u_wifiStopSTA env s3)"
    using checks by (simp add: wifiStopWiFi_def)
  finally have "calls (wifiEventHandler_Disconnect env cfg ev d t) = calls t @ (ws @ [esp_wifi_stop])"
    using s3(2) by (simp add: StopSTA_calls)
  then have "issued t (wifiEventHandler_Disconnect env cfg ev d t) = ws @ [esp_wifi_stop]"
    by (rule issued_append)
  then show ?thesis
    by simp
qed

lemma check_get:
  "n < 32 \<Longrightarrow> fst (wifiStatusCheck (BIT n) False s) = (wifiStatusGet s AND BIT n \<noteq> 0)"
proof -
  assume n: "n < 32"
  have "(b AND BIT n = BIT n) = (b AND BIT n \<noteq> 0)" for b
    using n by (simp add: has_bit nz_bit)
  then show ?thesis
    using n unfolding wifiStatusCheck_def wifiStatusGet_def
    by (auto split: option.splits)
qed

section \<open>The claims\<close>

text \<open>
  C9. Whatever the starting state and whatever the driver answers, the StaEnabled bit is
  clear once \<^verbatim>\<open>wifiStop\<close> has returned: the bit is cleared before the stop or
  disconnect request is made and nothing on that path sets it again, so a failed request
  (return value false) leaves automatic reconnection suppressed all the same.
\<close>

theorem wifiStop_leaves_disabled:
  "wifiStatusGet (snd (wifiStop env s)) AND WIFI_STA_ENABLED = 0
   \<and> \<not> wifiIsEnabled (snd (wifiStop env s))"
proof -
  let ?t = "snd (wifiStatusClear WIFI_STA_ENABLED s)"
  have "steady WIFI_STA_ENABLED ?t (snd (wifiStopWiFi env ?t))"
    by (rule steady_StopWiFi [OF stop_and_enabled steady_refl])
  then have "wifiStatusGet (snd (wifiStop env s)) AND WIFI_STA_ENABLED
               = wifiStatusGet ?t AND WIFI_STA_ENABLED"
    by (simp add: steady_def wifiStop_def)
  then have "wifiStatusGet (snd (wifiStop env s)) AND WIFI_STA_ENABLED = 0"
    by (simp add: wifiStatusGet_clear)
  then show ?thesis
    by (simp add: not_enabled_iff)
qed


text \<open>
  An instance where the driver rejects the request: the station is started, the stop
  request fails, \<^verbatim>\<open>wifiStop\<close> returns false and StaEnabled is clear.
\<close>

theorem wifiStop_leaves_disabled_witness:
  "\<not> fst (wifiStop (\<lambda>n c. -1) ((boot None)\<lparr>wifiStatusBits := Some 12\<rparr>))
   \<and> \<not> wifiIsEnabled (snd (wifiStop (\<lambda>n c. -1) ((boot None)\<lparr>wifiStatusBits := Some 12\<rparr>)))"
  using wifiStop_leaves_disabled [of "\<lambda>n c. -1" "(boot None)\<lparr>wifiStatusBits := Some 12\<rparr>"]
  by (simp add: wifiStop_def wifiStopWiFi_def wifiStatusClear_def wifiStatusCheck_def
      wifiStatusGet_def u_wifiStopSTA_def WIFI_ERROR_CHECK_BOOL_def drv_def boot_def Let_def
      ESP_OK_def WIFI_STA_ENABLED_def WIFI_STA_CONNECTED_def WIFI_STA_STARTED_def BIT_def)

text \<open>
  C7. In multi-profile mode a connect attempt made while the need-change flag is set moves
  the index from \<open>i\<close> to \<open>i + 1\<close>, and from \<^verbatim>\<open>_wifiMaxIndex\<close> back to 1, so the index
  stays within 1 .. \<^verbatim>\<open>_wifiMaxIndex\<close>; the flag and the maximum are kept, whatever the
  driver answers. With a maximum of 3 and index 1, three consecutive attempts give 2, 3, 1.
\<close>

theorem selector_advance_circular:
  assumes "CONFIG_WIFI_SSID cfg = None" and "wifiIndexNeedChange s"
    and "1 \<le> wifiCurrIndex s" and "wifiCurrIndex s \<le> wifiMaxIndex s"
    and "wifiMaxIndex s < 255"
  shows "wifiCurrIndex (snd (wifiConnectSTA env cfg s)) =
           (if wifiCurrIndex s = wifiMaxIndex s then 1 else wifiCurrIndex s + 1)
         \<and> 1 \<le> wifiCurrIndex (snd (wifiConnectSTA env cfg s))
         \<and> wifiCurrIndex (snd (wifiConnectSTA env cfg s)) \<le> wifiMaxIndex s
         \<and> wifiMaxIndex (snd (wifiConnectSTA env cfg s)) = wifiMaxIndex s
         \<and> wifiIndexNeedChange (snd (wifiConnectSTA env cfg s))
         \<and> (wifiMaxIndex s = 3 \<and> wifiCurrIndex s = 1 \<longrightarrow>
              (let s1 = snd (wifiConnectSTA env cfg s);
                   s2 = snd (wifiConnectSTA env2 cfg s1);
                   s3 = snd (wifiConnectSTA env3 cfg s2)
               in map wifiCurrIndex [s1, s2, s3] = [2, 3, 1]))"
proof -
  have step: "wifiCurrIndex (snd (wifiConnectSTA e cfg t)) =
                (if wifiCurrIndex t = wifiMaxIndex t then 1 else wifiCurrIndex t + 1)
              \<and> wifiMaxIndex (snd (wifiConnectSTA e cfg t)) = wifiMaxIndex t
              \<and> wifiIndexNeedChange (snd (wifiConnectSTA e cfg t))"
    if "wifiIndexNeedChange t" "1 \<le> wifiCurrIndex t" "wifiCurrIndex t \<le> wifiMaxIndex t"
      "wifiMaxIndex t < 255" for e t
    using select_index_advance [OF that] connect_fields [OF assms(1)] by simp
  note first = step [OF assms(2-5), of env]
  have lo: "1 \<le> (if wifiCurrIndex s = wifiMaxIndex s then 1 else wifiCurrIndex s + 1)"
    using index_succ [OF assms(4,5)] by simp
  have hi: "(if wifiCurrIndex s = wifiMaxIndex s then 1 else wifiCurrIndex s + 1) \<le> wifiMaxIndex s"
    using index_succ [OF assms(4,5)] assms(3,4) by auto
  have seq: "(let s1 = snd (wifiConnectSTA env cfg s);
                  s2 = snd (wifiConnectSTA env2 cfg s1);
                  s3 = snd (wifiConnectSTA env3 cfg s2)
              in map wifiCurrIndex [s1, s2, s3] = [2, 3, 1])"
    if m: "wifiMaxIndex s = 3" and c: "wifiCurrIndex s = 1"
  proof -
    let ?s1 = "snd (wifiConnectSTA env cfg s)"
    let ?s2 = "snd (wifiConnectSTA env2 cfg ?s1)"
    let ?s3 = "snd (wifiConnectSTA env3 cfg ?s2)"
    have 1: "wifiCurrIndex ?s1 = 2" "wifiMaxIndex ?s1 = 3" "wifiIndexNeedChange ?s1"
      using first m c by simp_all
    have 2: "wifiCurrIndex ?s2 = 3" "wifiMaxIndex ?s2 = 3" "wifiIndexNeedChange ?s2"
      using step [of ?s1 env2] 1 by simp_all
    have 3: "wifiCurrIndex ?s3 = 1"
      using step [of ?s2 env3] 2 by simp
    show ?thesis
      using 1 2 3 by (simp add: Let_def)
  qed
  show ?thesis
    using first lo hi seq by simp
qed


theorem selector_advance_circular_witness:
  "CONFIG_WIFI_SSID example_config = None
   \<and> (let s = (boot None)\<lparr>wifiMaxIndex := 3, wifiCurrIndex := 1, wifiIndexNeedChange := True\<rparr>;
            s1 = snd (wifiConnectSTA all_ok example_config s);
            s2 = snd (wifiConnectSTA all_ok example_config s1);
            s3 = snd (wifiConnectSTA all_ok example_config s2)
        in wifiIndexNeedChange s \<and> 1 \<le> wifiCurrIndex s \<and> wifiCurrIndex s \<le> wifiMaxIndex s
           \<and> wifiMaxIndex s < 255 \<and> map wifiCurrIndex [s1, s2, s3] = [2, 3, 1])"
  using selector_advance_circular [of example_config
      "(boot None)\<lparr>wifiMaxIndex := 3, wifiCurrIndex := 1, wifiIndexNeedChange := True\<rparr>"
      all_ok all_ok all_ok]
  by (simp add: example_config_def boot_def Let_def)


text \<open>
  C10. In multi-profile mode credential selection has a default: for an index that matches
  no configured profile \<^verbatim>\<open>wifiGetSSID\<close> returns the SSID of profile 1, and
  \<^verbatim>\<open>wifiConnectSTA\<close> passes to \<^verbatim>\<open>esp_wifi_set_config\<close> exactly once the credentials the
  \<^verbatim>\<open>switch\<close> gives for the index it has settled on, which are those of profile 1 whenever
  that index matches no profile; so for a stale index left unchanged, and for an index
  above the maximum read from storage.
\<close>

theorem unmatched_index_selects_profile_1:
  assumes "CONFIG_WIFI_SSID cfg = None"
  shows "(\<not> configured cfg (wifiCurrIndex s) \<longrightarrow> wifiGetSSID cfg s = fst (CONFIG_WIFI_1_SSID cfg))
       \<and> filter is_set_config (issued s (snd (wifiConnectSTA env cfg s))) =
           [esp_wifi_set_config
              (fst (switch_profile cfg (wifiCurrIndex (snd (wifiConnectSTA env cfg s)))))
              (snd (switch_profile cfg (wifiCurrIndex (snd (wifiConnectSTA env cfg s)))))]
       \<and> (\<not> configured cfg (wifiCurrIndex (snd (wifiConnectSTA env cfg s))) \<longrightarrow>
            switch_profile cfg (wifiCurrIndex (snd (wifiConnectSTA env cfg s)))
              = CONFIG_WIFI_1_SSID cfg)
       \<and> (wifiCurrIndex s \<noteq> 0 \<and> \<not> wifiIndexNeedChange s \<and> \<not> configured cfg (wifiCurrIndex s) \<longrightarrow>
            filter is_set_config (issued s (snd (wifiConnectSTA env cfg s))) =
              [esp_wifi_set_config (fst (CONFIG_WIFI_1_SSID cfg)) (snd (CONFIG_WIFI_1_SSID cfg))])
       \<and> (wifiCurrIndex s = 0 \<and> nvsIndex s = Some v \<and> wifiGetMaxIndex cfg < v \<longrightarrow>
            filter is_set_config (issued s (snd (wifiConnectSTA env cfg s))) =
              [esp_wifi_set_config (fst (CONFIG_WIFI_1_SSID cfg)) (snd (CONFIG_WIFI_1_SSID cfg))])"
proof -
  let ?s' = "snd (wifiConnectSTA env cfg s)"
  have a: "\<not> configured cfg (wifiCurrIndex s) \<longrightarrow> wifiGetSSID cfg s = fst (CONFIG_WIFI_1_SSID cfg)"
    using assms by (simp add: wifiGetSSID_def switch_profile_default)
  note b = connect_configures [OF assms, of s env]
  have c: "\<not> configured cfg (wifiCurrIndex ?s') \<longrightarrow>
             switch_profile cfg (wifiCurrIndex ?s') = CONFIG_WIFI_1_SSID cfg"
    by (simp add: switch_profile_default)
  have d: "filter is_set_config (issued s ?s') =
              [esp_wifi_set_config (fst (CONFIG_WIFI_1_SSID cfg)) (snd (CONFIG_WIFI_1_SSID cfg))]"
    if "wifiCurrIndex s \<noteq> 0" "\<not> wifiIndexNeedChange s" "\<not> configured cfg (wifiCurrIndex s)"
  proof -
    have "wifiCurrIndex (select_index cfg s) = wifiCurrIndex s"
      using that(1,2) by (simp add: select_index_def)
    then have "wifiCurrIndex ?s' = wifiCurrIndex s"
      using connect_fields(1) [OF assms] by simp
    then show ?thesis
      using b that(3) by (simp add: switch_profile_default)
  qed
  have e: "filter is_set_config (issued s ?s') =
              [esp_wifi_set_config (fst (CONFIG_WIFI_1_SSID cfg)) (snd (CONFIG_WIFI_1_SSID cfg))]"
    if "wifiCurrIndex s = 0" "nvsIndex s = Some v" "wifiGetMaxIndex cfg < v"
  proof -
    have "v \<noteq> 0"
      using that(3) by auto
    then have "wifiCurrIndex (select_index cfg s) = v"
      using that(1,2) by (simp add: select_index_def nvsRead_index_def Let_def)
    then have "wifiCurrIndex ?s' = v"
      using connect_fields(1) [OF assms] by simp
    then show ?thesis
      using b above_max_not_configured [OF that(3) assms] by (simp add: switch_profile_default)
  qed
  show ?thesis
    using a b c d e by blast
qed

theorem unmatched_index_selects_profile_1_witness:
  "CONFIG_WIFI_SSID example_config = None
   \<and> \<not> configured example_config 9
   \<and> wifiGetSSID example_config ((boot (Some 9))\<lparr>wifiCurrIndex := 9\<rparr>) = ''home''
   \<and> wifiCurrIndex (boot (Some 9)) = 0 \<and> nvsIndex (boot (Some 9)) = Some 9
   \<and> wifiGetMaxIndex example_config < 9
   \<and> filter is_set_config (issued (boot (Some 9))
         (snd (wifiConnectSTA all_ok example_config (boot (Some 9))))) =
       [esp_wifi_set_config ''home'' ''secret1'']"
proof -
  have multi: "CONFIG_WIFI_SSID example_config = None"
    by (simp add: example_config_def)
  have first: "CONFIG_WIFI_1_SSID example_config = (''home'', ''secret1'')"
    by (simp add: example_config_def)
  have unmatched: "\<not> configured example_config 9"
    by (simp add: configured_def example_config_def)
  have max: "wifiGetMaxIndex example_config < 9"
    by (simp add: wifiGetMaxIndex_def example_config_def)
  have fresh: "wifiCurrIndex (boot (Some 9)) = 0" "nvsIndex (boot (Some 9)) = Some 9"
    by (simp_all add: boot_def)
  have stale: "wifiCurrIndex ((boot (Some 9))\<lparr>wifiCurrIndex := 9\<rparr>) = 9"
    by simp
  have ssid: "wifiGetSSID example_config ((boot (Some 9))\<lparr>wifiCurrIndex := 9\<rparr>) = ''home''"
    using unmatched_index_selects_profile_1
        [OF multi, where s = "(boot (Some 9))\<lparr>wifiCurrIndex := 9\<rparr>" and env = all_ok and v = 9,
          THEN conjunct1]
      unmatched first by simp
  have conf: "filter is_set_config (issued (boot (Some 9))
         (snd (wifiConnectSTA all_ok example_config (boot (Some 9))))) =
       [esp_wifi_set_config ''home'' ''secret1'']"
    using unmatched_index_selects_profile_1
        [OF multi, where s = "boot (Some 9)" and v = 9 and env = all_ok,
          THEN conjunct2, THEN conjunct2, THEN conjunct2, THEN conjunct2]
      max fresh first by simp
  show ?thesis
    using multi unmatched ssid fresh max conf by simp
qed

text \<open>
  C5. When \<^verbatim>\<open>wifiReconnectWiFi\<close> runs with both pending-disconnect flags clear and
  StaEnabled clear, it takes the last branch: it calls \<^verbatim>\<open>wifiStopWiFi\<close> and returns false.
  So it requests exactly a disconnect, with the stop-pending flag set, when the link is
  connected; exactly a stop of the adapter when the station is started but not connected;
  and nothing when the station is not started. When the timer fires in that state, the
  callback, seeing false, goes on with \<^verbatim>\<open>_wifiRestoreSTA\<close> and \<^verbatim>\<open>_wifiStopSTA\<close>: after the
  request above it requests \<^verbatim>\<open>esp_wifi_restore\<close> and \<^verbatim>\<open>esp_wifi_stop\<close>, in that order and
  whatever the driver answers. The station stays disabled, and where the link was connected
  and the adapter started, the disconnect-class event that follows is answered by
  \<^verbatim>\<open>esp_wifi_stop\<close>. On this path only disconnect, stop, restore and timer calls are made:
  no credentials are configured, no connect attempt is initiated, and the attempt counter
  is left alone.
\<close>

theorem disabled_escalation_stops:
  assumes "\<not> fst (wifiStatusCheck WIFI_STA_DISCONNECT_STOP False s)"
    and "\<not> fst (wifiStatusCheck WIFI_STA_DISCONNECT_RESTORE False s)"
    and "\<not> wifiIsEnabled s"
  shows "wifiReconnectWiFi env cfg s = (False, snd (wifiStopWiFi env s))
       \<and> wifiTimeoutEnd env cfg s =
           snd (u_wifiStopSTA env (snd (u_wifiRestoreSTA env (snd (wifiStopWiFi env s)))))
       \<and> requests s (snd (wifiReconnectWiFi env cfg s)) =
           (if fst (wifiStatusCheck WIFI_STA_CONNECTED False s) then [esp_wifi_disconnect]
            else if fst (wifiStatusCheck WIFI_STA_STARTED False s) then [esp_wifi_stop] else [])
       \<and> (fst (wifiStatusCheck WIFI_STA_CONNECTED False s) \<longrightarrow>
            fst (wifiStatusCheck WIFI_STA_DISCONNECT_STOP False
                   (snd (wifiReconnectWiFi env cfg s))))
       \<and> requests s (wifiTimeoutEnd env cfg s) =
           (if fst (wifiStatusCheck WIFI_STA_CONNECTED False s) then [esp_wifi_disconnect]
            else if fst (wifiStatusCheck WIFI_STA_STARTED False s) then [esp_wifi_stop] else [])
           @ [esp_wifi_restore, esp_wifi_stop]
       \<and> esp_wifi_stop \<in> set (issued s (wifiTimeoutEnd env cfg s))
       \<and> \<not> wifiIsEnabled (snd (wifiReconnectWiFi env cfg s))
       \<and> \<not> wifiIsEnabled (wifiTimeoutEnd env cfg s)
       \<and> (fst (wifiStatusCheck WIFI_STA_CONNECTED False s)
            \<and> fst (wifiStatusCheck WIFI_STA_STARTED False s) \<longrightarrow>
            esp_wifi_stop \<in> set (issued (snd (wifiReconnectWiFi env cfg s))
              (wifiEventHandler_Disconnect env2 cfg ev d (snd (wifiReconnectWiFi env cfg s)))))
       \<and> set (issued s (wifiTimeoutEnd env cfg s)) \<subseteq> stop_calls
       \<and> esp_wifi_connect \<notin> set (issued s (wifiTimeoutEnd env cfg s))
       \<and> (\<forall>ssid pass. esp_wifi_set_config ssid pass \<notin> set (issued s (wifiTimeoutEnd env cfg s)))
       \<and> wifiAttemptCount (wifiTimeoutEnd env cfg s) = wifiAttemptCount s"
proof -
  let ?req = "if fst (wifiStatusCheck WIFI_STA_CONNECTED False s) then [esp_wifi_disconnect]
            else if fst (wifiStatusCheck WIFI_STA_STARTED False s) then [esp_wifi_stop] else []"
  let ?t1 = "snd (wifiStopWiFi env s)"
  let ?t2 = "snd (u_wifiRestoreSTA env ?t1)"
  let ?t3 = "snd (u_wifiStopSTA env ?t2)"
  have 1: "wifiStatusCheck WIFI_STA_DISCONNECT_STOP True s = (False, s)"
    using assms(1) unfolding WIFI_STA_DISCONNECT_STOP_def by (simp add: check_absent_flag)
  have 2: "wifiStatusCheck WIFI_STA_DISCONNECT_RESTORE True s = (False, s)"
    using assms(2) unfolding WIFI_STA_DISCONNECT_RESTORE_def by (simp add: check_absent_flag)
  have r: "wifiReconnectWiFi env cfg s = (False, ?t1)"
    using assms(3) unfolding wifiReconnectWiFi_def wifiIsEnabled_def by (simp add: 1 2)
  have t: "wifiTimeoutEnd env cfg s = ?t3"
    unfolding wifiTimeoutEnd_def by (simp add: r)
  have "stop_only s (wifiTimeoutEnd env cfg s)"
    unfolding t
    by (intro stop_only_StopSTA stop_only_RestoreSTA stop_only_StopWiFi stop_only_refl)
  note f = stop_only_fields [OF this]
  have q1: "requests s ?t1 = ?req"
    by (rule wifiStopWiFi_requests(1))
  have rq: "requests s (snd (wifiReconnectWiFi env cfg s)) = ?req"
    using q1 by (simp add: r)
  have flag: "fst (wifiStatusCheck WIFI_STA_DISCONNECT_STOP False
                   (snd (wifiReconnectWiFi env cfg s)))"
    if "fst (wifiStatusCheck WIFI_STA_CONNECTED False s)"
    using StopWiFi_flag [OF that] by (simp add: r)
  obtain cs where cs: "calls ?t1 = calls s @ cs"
    using StopWiFi_appends by blast
  obtain ds where ds: "calls ?t2 = calls ?t1 @ esp_wifi_restore # ds" "set ds \<subseteq> timer_calls"
    using RestoreSTA_calls by blast
  have c3: "calls ?t3 = calls ?t2 @ [esp_wifi_stop]"
    by (rule StopSTA_calls)
  have n: "esp_wifi_restore \<notin> timer_calls" "esp_wifi_stop \<notin> timer_calls"
    by (simp_all add: timer_calls_def)
  have q2: "requests ?t1 ?t2 = [esp_wifi_restore]"
    using ds n requests_timer [OF ds(2)] by (simp add: requests_def issued_def)
  have q3: "requests ?t2 ?t3 = [esp_wifi_stop]"
    using c3 n by (simp add: requests_def issued_def)
  have c12: "calls ?t2 = calls s @ (cs @ esp_wifi_restore # ds)"
    using cs ds(1) by simp
  have "requests s ?t3 = requests s ?t2 @ requests ?t2 ?t3"
    using c12 c3 by (rule requests_append)
  also have "requests s ?t2 = requests s ?t1 @ requests ?t1 ?t2"
    using cs ds(1) by (rule requests_append)
  finally have tq: "requests s (wifiTimeoutEnd env cfg s) = ?req @ [esp_wifi_restore, esp_wifi_stop]"
    by (simp add: t q1 q2 q3)
  have "calls ?t3 = calls s @ (cs @ esp_wifi_restore # ds @ [esp_wifi_stop])"
    using c12 c3 by simp
  then have "issued s ?t3 = cs @ esp_wifi_restore # ds @ [esp_wifi_stop]"
    by (rule issued_append)
  then have st: "esp_wifi_stop \<in> set (issued s (wifiTimeoutEnd env cfg s))"
    by (simp add: t)
  have "steady WIFI_STA_ENABLED s ?t1"
    by (rule steady_StopWiFi [OF stop_and_enabled steady_refl])
  then have e1: "\<not> wifiIsEnabled (snd (wifiReconnectWiFi env cfg s))"
    using steady_enabled assms(3) by (simp add: r)
  have sd: "WIFI_STA_DISCONNECT_STOP AND WIFI_STA_STARTED = 0"
    by (simp add: WIFI_STA_DISCONNECT_STOP_def WIFI_STA_STARTED_def BIT_def)
  have "steady WIFI_STA_STARTED s ?t1"
    by (rule steady_StopWiFi [OF sd steady_refl])
  then have started: "fst (wifiStatusCheck WIFI_STA_STARTED False ?t1)
                  = fst (wifiStatusCheck WIFI_STA_STARTED False s)"
    unfolding steady_def WIFI_STA_STARTED_def by (simp add: check_get)
  have follow: "esp_wifi_stop \<in> set (issued (snd (wifiReconnectWiFi env cfg s))
              (wifiEventHandler_Disconnect env2 cfg ev d (snd (wifiReconnectWiFi env cfg s))))"
    if "fst (wifiStatusCheck WIFI_STA_STARTED False s)"
    using Disconnect_disabled_stops [OF e1, of env2 cfg ev d] that started by (simp add: r)
  have re: "WIFI_STA_DISCONNECT_RESTORE AND WIFI_STA_ENABLED = 0"
    by (simp add: WIFI_STA_DISCONNECT_RESTORE_def WIFI_STA_ENABLED_def BIT_def)
  have "steady WIFI_STA_ENABLED s (wifiTimeoutEnd env cfg s)"
    by (rule steady_TimeoutEnd [OF stop_and_enabled re steady_refl])
  then have e2: "\<not> wifiIsEnabled (wifiTimeoutEnd env cfg s)"
    using steady_enabled assms(3) by simp
  have "esp_wifi_connect \<notin> stop_calls" "\<And>a b. esp_wifi_set_config a b \<notin> stop_calls"
    by (simp_all add: stop_calls_def timer_calls_def)
  then have neg: "esp_wifi_connect \<notin> set (issued s (wifiTimeoutEnd env cfg s))"
    "\<forall>ssid pass. esp_wifi_set_config ssid pass \<notin> set (issued s (wifiTimeoutEnd env cfg s))"
    using f(8) by blast+
  show ?thesis
    using r t rq flag tq st e1 e2 follow f(1,8) neg by blast
qed

theorem disabled_escalation_stops_witness:
  "\<not> fst (wifiStatusCheck WIFI_STA_DISCONNECT_STOP False ((boot None)\<lparr>wifiStatusBits := Some 8\<rparr>))
   \<and> \<not> fst (wifiStatusCheck WIFI_STA_DISCONNECT_RESTORE False ((boot None)\<lparr>wifiStatusBits := Some 8\<rparr>))
   \<and> \<not> wifiIsEnabled ((boot None)\<lparr>wifiStatusBits := Some 8\<rparr>)
   \<and> fst (wifiStatusCheck WIFI_STA_STARTED False ((boot None)\<lparr>wifiStatusBits := Some 8\<rparr>))
   \<and> \<not> fst (wifiStatusCheck WIFI_STA_CONNECTED False ((boot None)\<lparr>wifiStatusBits := Some 8\<rparr>))
   \<and> \<not> fst (wifiReconnectWiFi all_ok example_config ((boot None)\<lparr>wifiStatusBits := Some 8\<rparr>))
   \<and> requests ((boot None)\<lparr>wifiStatusBits := Some 8\<rparr>)
        (snd (wifiReconnectWiFi all_ok example_config ((boot None)\<lparr>wifiStatusBits := Some 8\<rparr>)))
       = [esp_wifi_stop]
   \<and> requests ((boot None)\<lparr>wifiStatusBits := Some 8\<rparr>)
        (wifiTimeoutEnd all_ok example_config ((boot None)\<lparr>wifiStatusBits := Some 8\<rparr>))
       = [esp_wifi_stop, esp_wifi_restore, esp_wifi_stop]
   \<and> esp_wifi_connect \<notin> set (issued ((boot None)\<lparr>wifiStatusBits := Some 8\<rparr>)
        (wifiTimeoutEnd all_ok example_config ((boot None)\<lparr>wifiStatusBits := Some 8\<rparr>)))
   \<and> \<not> fst (wifiStatusCheck WIFI_STA_DISCONNECT_STOP False ((boot None)\<lparr>wifiStatusBits := Some 24\<rparr>))
   \<and> \<not> fst (wifiStatusCheck WIFI_STA_DISCONNECT_RESTORE False ((boot None)\<lparr>wifiStatusBits := Some 24\<rparr>))
   \<and> \<not> wifiIsEnabled ((boot None)\<lparr>wifiStatusBits := Some 24\<rparr>)
   \<and> fst (wifiStatusCheck WIFI_STA_STARTED False ((boot None)\<lparr>wifiStatusBits := Some 24\<rparr>))
   \<and> fst (wifiStatusCheck WIFI_STA_CONNECTED False ((boot None)\<lparr>wifiStatusBits := Some 24\<rparr>))
   \<and> requests ((boot None)\<lparr>wifiStatusBits := Some 24\<rparr>)
        (snd (wifiReconnectWiFi all_ok example_config ((boot None)\<lparr>wifiStatusBits := Some 24\<rparr>)))
       = [esp_wifi_disconnect]
   \<and> fst (wifiStatusCheck WIFI_STA_DISCONNECT_STOP False
        (snd (wifiReconnectWiFi all_ok example_config ((boot None)\<lparr>wifiStatusBits := Some 24\<rparr>))))
   \<and> esp_wifi_stop \<in> set (issued
        (snd (wifiReconnectWiFi all_ok example_config ((boot None)\<lparr>wifiStatusBits := Some 24\<rparr>)))
        (wifiEventHandler_Disconnect all_ok example_config WIFI_EVENT_STA_DISCONNECTED (Some 8)
           (snd (wifiReconnectWiFi all_ok example_config ((boot None)\<lparr>wifiStatusBits := Some 24\<rparr>)))))
   \<and> requests ((boot None)\<lparr>wifiStatusBits := Some 24\<rparr>)
        (wifiTimeoutEnd all_ok example_config ((boot None)\<lparr>wifiStatusBits := Some 24\<rparr>))
       = [esp_wifi_disconnect, esp_wifi_restore, esp_wifi_stop]"
proof -
  let ?s = "(boot None)\<lparr>wifiStatusBits := Some 8\<rparr>"
  let ?c = "(boot None)\<lparr>wifiStatusBits := Some 24\<rparr>"
  have 1: "\<not> fst (wifiStatusCheck WIFI_STA_DISCONNECT_STOP False ?s)"
    by (simp add: wifiStatusCheck_def WIFI_STA_DISCONNECT_STOP_def BIT_def)
  have 2: "\<not> fst (wifiStatusCheck WIFI_STA_DISCONNECT_RESTORE False ?s)"
    by (simp add: wifiStatusCheck_def WIFI_STA_DISCONNECT_RESTORE_def BIT_def)
  have 3: "\<not> wifiIsEnabled ?s"
    by (simp add: wifiIsEnabled_def wifiStatusCheck_def WIFI_STA_ENABLED_def BIT_def)
  have 4: "fst (wifiStatusCheck WIFI_STA_STARTED False ?s)"
    by (simp add: wifiStatusCheck_def WIFI_STA_STARTED_def BIT_def)
  have 5: "\<not> fst (wifiStatusCheck WIFI_STA_CONNECTED False ?s)"
    by (simp add: wifiStatusCheck_def WIFI_STA_CONNECTED_def BIT_def)
  note escalation = disabled_escalation_stops [OF 1 2 3, of all_ok example_config]
  have 6: "\<not> fst (wifiReconnectWiFi all_ok example_config ?s)"
    using escalation [THEN conjunct1] by simp
  have 7: "requests ?s (snd (wifiReconnectWiFi all_ok example_config ?s)) = [esp_wifi_stop]"
    using escalation [THEN conjunct2, THEN conjunct2, THEN conjunct1] 4 5 by simp
  have 8: "requests ?s (wifiTimeoutEnd all_ok example_config ?s)
             = [esp_wifi_stop, esp_wifi_restore, esp_wifi_stop]"
    using escalation [THEN conjunct2, THEN conjunct2, THEN conjunct2, THEN conjunct2,
        THEN conjunct1] 4 5
    by simp
  have 9: "esp_wifi_connect \<notin> set (issued ?s (wifiTimeoutEnd all_ok example_config ?s))"
    using escalation by blast
  have c1: "\<not> fst (wifiStatusCheck WIFI_STA_DISCONNECT_STOP False ?c)"
    by (simp add: wifiStatusCheck_def WIFI_STA_DISCONNECT_STOP_def BIT_def)
  have c2: "\<not> fst (wifiStatusCheck WIFI_STA_DISCONNECT_RESTORE False ?c)"
    by (simp add: wifiStatusCheck_def WIFI_STA_DISCONNECT_RESTORE_def BIT_def)
  have c3: "\<not> wifiIsEnabled ?c"
    by (simp add: wifiIsEnabled_def wifiStatusCheck_def WIFI_STA_ENABLED_def BIT_def)
  have c4: "fst (wifiStatusCheck WIFI_STA_STARTED False ?c)"
    by (simp add: wifiStatusCheck_def WIFI_STA_STARTED_def BIT_def)
  have c5: "fst (wifiStatusCheck WIFI_STA_CONNECTED False ?c)"
    by (simp add: wifiStatusCheck_def WIFI_STA_CONNECTED_def BIT_def)
  note connected = disabled_escalation_stops [OF c1 c2 c3,
      of all_ok example_config all_ok WIFI_EVENT_STA_DISCONNECTED "Some 8"]
  have c6: "requests ?c (snd (wifiReconnectWiFi all_ok example_config ?c)) = [esp_wifi_disconnect]"
    using connected [THEN conjunct2, THEN conjunct2, THEN conjunct1] c5 by simp
  have c7: "fst (wifiStatusCheck WIFI_STA_DISCONNECT_STOP False
        (snd (wifiReconnectWiFi all_ok example_config ?c)))"
    using connected [THEN conjunct2, THEN conjunct2, THEN conjunct2, THEN conjunct1] c5 by blast
  have c8: "esp_wifi_stop \<in> set (issued (snd (wifiReconnectWiFi all_ok example_config ?c))
        (wifiEventHandler_Disconnect all_ok example_config WIFI_EVENT_STA_DISCONNECTED (Some 8)
           (snd (wifiReconnectWiFi all_ok example_config ?c))))"
    using connected c4 c5 by blast
  have c9: "requests ?c (wifiTimeoutEnd all_ok example_config ?c)
             = [esp_wifi_disconnect, esp_wifi_restore, esp_wifi_stop]"
    using connected [THEN conjunct2, THEN conjunct2, THEN conjunct2, THEN conjunct2,
        THEN conjunct1] c5
    by simp
  show ?thesis
    using 1 2 3 4 5 6 7 8 9 c1 c2 c3 c4 c5 c6 c7 c8 c9 by blast
qed

text \<open>
  C6, as stated, fails: \<^verbatim>\<open>wifiStop\<close> does not poll or retry. With the station started and
  a driver that rejects the first request only, \<^verbatim>\<open>wifiStop\<close> returns false after the single
  \<^verbatim>\<open>esp_wifi_stop\<close> call, although a second request would have been accepted.
\<close>

theorem wifiStop_gives_up_at_once:
  "\<not> fst (wifiStop busy_once ((boot None)\<lparr>wifiStatusBits := Some 12\<rparr>))
   \<and> calls (snd (wifiStop busy_once ((boot None)\<lparr>wifiStatusBits := Some 12\<rparr>))) = [esp_wifi_stop]
   \<and> busy_once 1 esp_wifi_stop = ESP_OK"
  by (simp add: wifiStop_def wifiStopWiFi_def wifiStatusClear_def wifiStatusCheck_def
      wifiStatusGet_def u_wifiStopSTA_def WIFI_ERROR_CHECK_BOOL_def drv_def boot_def Let_def
      busy_once_def ESP_OK_def ESP_FAIL_def WIFI_STA_ENABLED_def WIFI_STA_CONNECTED_def
      WIFI_STA_STARTED_def BIT_def)

text \<open>
  C6, amended. \<^verbatim>\<open>wifiStop\<close> clears StaEnabled and makes at most one request to the driver:
  a disconnect, with the stop-pending flag set, when the link is connected; a stop when the
  station is started but not connected; none otherwise. Its result is the driver's answer
  to that one request. A second \<^verbatim>\<open>wifiStop\<close> leaves the status bits as the first left them.
\<close>

theorem wifiStop_single_request:
  "wifiStatusGet (snd (wifiStop env s)) AND WIFI_STA_ENABLED = 0
   \<and> requests s (snd (wifiStop env s)) =
       (if fst (wifiStatusCheck WIFI_STA_CONNECTED False s) then [esp_wifi_disconnect]
        else if fst (wifiStatusCheck WIFI_STA_STARTED False s) then [esp_wifi_stop] else [])
   \<and> fst (wifiStop env s) =
       (if fst (wifiStatusCheck WIFI_STA_CONNECTED False s)
        then env (length (calls s)) esp_wifi_disconnect = ESP_OK
        else if fst (wifiStatusCheck WIFI_STA_STARTED False s)
        then env (length (calls s)) esp_wifi_stop = ESP_OK else True)
   \<and> (fst (wifiStatusCheck WIFI_STA_CONNECTED False s) \<longrightarrow>
        fst (wifiStatusCheck WIFI_STA_DISCONNECT_STOP False (snd (wifiStop env s))))
   \<and> wifiStatusBits (snd (wifiStop env2 (snd (wifiStop env s))))
       = wifiStatusBits (snd (wifiStop env s))"
proof -
  let ?t = "snd (wifiStatusClear WIFI_STA_ENABLED s)"
  have a: "wifiStatusGet (snd (wifiStop env s)) AND WIFI_STA_ENABLED = 0"
    by (cases "wifiStatusBits s") (simp_all add: wifiStatusGet_def wifiStop_bits stop_bits_enabled)
  have "requests s (snd (wifiStop env s)) = requests ?t (snd (wifiStopWiFi env ?t))"
    by (simp add: requests_def issued_def wifiStop_def clear_enabled_checks(3))
  then have b: "requests s (snd (wifiStop env s)) =
       (if fst (wifiStatusCheck WIFI_STA_CONNECTED False s) then [esp_wifi_disconnect]
        else if fst (wifiStatusCheck WIFI_STA_STARTED False s) then [esp_wifi_stop] else [])"
    by (simp add: wifiStopWiFi_requests(1) clear_enabled_checks)
  have c: "fst (wifiStop env s) =
       (if fst (wifiStatusCheck WIFI_STA_CONNECTED False s)
        then env (length (calls s)) esp_wifi_disconnect = ESP_OK
        else if fst (wifiStatusCheck WIFI_STA_STARTED False s)
        then env (length (calls s)) esp_wifi_stop = ESP_OK else True)"
    by (simp add: wifiStop_def wifiStopWiFi_requests(2) clear_enabled_checks)
  have d: "fst (wifiStatusCheck WIFI_STA_DISCONNECT_STOP False (snd (wifiStop env s)))"
    if "fst (wifiStatusCheck WIFI_STA_CONNECTED False s)"
  proof -
    from that obtain b where b: "wifiStatusBits s = Some b"
      "b AND WIFI_STA_CONNECTED = WIFI_STA_CONNECTED"
      by (auto simp: wifiStatusCheck_def split: option.splits)
    have "stop_bits b AND WIFI_STA_DISCONNECT_STOP = WIFI_STA_DISCONNECT_STOP"
      using b(2) unfolding stop_bits_def WIFI_STA_DISCONNECT_STOP_def
      by (simp add: has_bit bit_simps bit_BIT)
    then show ?thesis
      using b(1) by (simp add: wifiStatusCheck_def wifiStop_bits)
  qed
  have e: "wifiStatusBits (snd (wifiStop env2 (snd (wifiStop env s))))
       = wifiStatusBits (snd (wifiStop env s))"
    by (cases "wifiStatusBits s") (simp_all add: wifiStop_bits stop_bits_idem)
  show ?thesis
    using a b c d e by blast
qed

theorem wifiStop_single_request_witness:
  "fst (wifiStatusCheck WIFI_STA_CONNECTED False ((boot None)\<lparr>wifiStatusBits := Some 28\<rparr>))
   \<and> requests ((boot None)\<lparr>wifiStatusBits := Some 28\<rparr>)
        (snd (wifiStop all_ok ((boot None)\<lparr>wifiStatusBits := Some 28\<rparr>))) = [esp_wifi_disconnect]
   \<and> fst (wifiStatusCheck WIFI_STA_DISCONNECT_STOP False
        (snd (wifiStop all_ok ((boot None)\<lparr>wifiStatusBits := Some 28\<rparr>))))"
proof -
  let ?s = "(boot None)\<lparr>wifiStatusBits := Some 28\<rparr>"
  have 1: "fst (wifiStatusCheck WIFI_STA_CONNECTED False ?s)"
    by (simp add: wifiStatusCheck_def WIFI_STA_CONNECTED_def BIT_def)
  note stop = wifiStop_single_request [of all_ok ?s all_ok]
  have 2: "requests ?s (snd (wifiStop all_ok ?s)) = [esp_wifi_disconnect]"
    using stop [THEN conjunct2, THEN conjunct1] 1 by simp
  have 3: "fst (wifiStatusCheck WIFI_STA_DISCONNECT_STOP False (snd (wifiStop all_ok ?s)))"
    using stop 1 by blast
  show ?thesis
    using 1 2 3 by blast
qed

text \<open>
  C1, as stated, fails for the lost-ip event. The station is enabled and started and has
  neither the Connected nor the GotIp bit; \<^verbatim>\<open>IP_EVENT_STA_LOST_IP\<close> arrives; the handler posts
  \<^verbatim>\<open>RE_WIFI_STA_DISCONNECTED\<close> all the same.
\<close>

theorem lost_ip_notifies_without_link:
  "wifiIsEnabled ((boot None)\<lparr>wifiStatusBits := Some 12\<rparr>)
   \<and> \<not> wifiIsConnected ((boot None)\<lparr>wifiStatusBits := Some 12\<rparr>)
   \<and> posted (wifiEventHandler_Disconnect all_ok example_config IP_EVENT_STA_LOST_IP None
               ((boot None)\<lparr>wifiStatusBits := Some 12\<rparr>))
       = [RE_WIFI_STA_DISCONNECTED None]"
proof -
  let ?s = "(boot None)\<lparr>wifiStatusBits := Some 12\<rparr>"
  have 1: "wifiIsEnabled ?s"
    by (simp add: wifiIsEnabled_def wifiStatusCheck_def WIFI_STA_ENABLED_def BIT_def)
  have 2: "\<not> wifiIsConnected ?s"
    by (simp add: wifiIsConnected_def wifiStatusCheck_def WIFI_STA_CONNECTED_def
        WIFI_STA_GOT_IP_def BIT_def)
  have 3: "posted ?s = []"
    by (simp add: boot_def)
  show ?thesis
    using 1 2 3 Disconnect_enabled(1) [OF 1, of all_ok example_config IP_EVENT_STA_LOST_IP None]
    by simp
qed

text \<open>
  C1, amended. While the station is enabled: for \<^verbatim>\<open>WIFI_EVENT_STA_DISCONNECTED\<close> and
  \<^verbatim>\<open>WIFI_EVENT_STA_BEACON_TIMEOUT\<close> the notification \<^verbatim>\<open>RE_WIFI_STA_DISCONNECTED\<close> is posted
  if and only if the status read before clearing held both Connected and GotIp, and the
  reason is recorded; for \<^verbatim>\<open>IP_EVENT_STA_LOST_IP\<close> the notification is posted whatever the
  status was, and the recorded reason is kept. In every case the handler ends with the
  escalation (\<^verbatim>\<open>wifiReconnectWiFi\<close> and its fallback), which posts nothing itself.
\<close>

theorem disconnect_notification:
  assumes "wifiIsEnabled s"
  shows "(event \<noteq> IP_EVENT_STA_LOST_IP \<and> wifiIsConnected s \<longrightarrow>
            posted (wifiEventHandler_Disconnect env cfg event event_data s) =
              posted s @ [RE_WIFI_STA_DISCONNECTED
                            (if event = WIFI_EVENT_STA_BEACON_TIMEOUT then None else event_data)])
       \<and> (event \<noteq> IP_EVENT_STA_LOST_IP \<and> \<not> wifiIsConnected s \<longrightarrow>
            posted (wifiEventHandler_Disconnect env cfg event event_data s) = posted s)
       \<and> (event = IP_EVENT_STA_LOST_IP \<longrightarrow>
            posted (wifiEventHandler_Disconnect env cfg event event_data s) =
              posted s @ [RE_WIFI_STA_DISCONNECTED None])
       \<and> wifiLastErr (wifiEventHandler_Disconnect env cfg event event_data s) =
           (if event = WIFI_EVENT_STA_BEACON_TIMEOUT then WIFI_REASON_BEACON_TIMEOUT
            else if event = IP_EVENT_STA_LOST_IP then wifiLastErr s
            else case event_data of Some reason \<Rightarrow> reason | None \<Rightarrow> WIFI_REASON_UNSPECIFIED)
       \<and> (\<exists>t. wifiEventHandler_Disconnect env cfg event event_data s = next_attempt env cfg t)"
  using Disconnect_enabled [OF assms, of env cfg event event_data]
  by auto

theorem disconnect_notification_witness:
  "wifiIsEnabled ((boot None)\<lparr>wifiStatusBits := Some 60\<rparr>)
   \<and> wifiIsConnected ((boot None)\<lparr>wifiStatusBits := Some 60\<rparr>)
   \<and> posted (wifiEventHandler_Disconnect all_ok example_config WIFI_EVENT_STA_DISCONNECTED (Some 4)
               ((boot None)\<lparr>wifiStatusBits := Some 60\<rparr>))
       = [RE_WIFI_STA_DISCONNECTED (Some 4)]
   \<and> wifiIsEnabled ((boot None)\<lparr>wifiStatusBits := Some 28\<rparr>)
   \<and> \<not> wifiIsConnected ((boot None)\<lparr>wifiStatusBits := Some 28\<rparr>)
   \<and> posted (wifiEventHandler_Disconnect all_ok example_config WIFI_EVENT_STA_DISCONNECTED (Some 4)
               ((boot None)\<lparr>wifiStatusBits := Some 28\<rparr>))
       = []"
proof -
  let ?up = "(boot None)\<lparr>wifiStatusBits := Some 60\<rparr>"
  let ?half = "(boot None)\<lparr>wifiStatusBits := Some 28\<rparr>"
  have e: "wifiIsEnabled ?up" "wifiIsEnabled ?half"
    by (simp_all add: wifiIsEnabled_def wifiStatusCheck_def WIFI_STA_ENABLED_def BIT_def)
  have c: "wifiIsConnected ?up" "\<not> wifiIsConnected ?half"
    by (simp_all add: wifiIsConnected_def wifiStatusCheck_def WIFI_STA_CONNECTED_def
        WIFI_STA_GOT_IP_def BIT_def)
  have p: "posted ?up = []" "posted ?half = []"
    by (simp_all add: boot_def)
  have 1: "posted (wifiEventHandler_Disconnect all_ok example_config WIFI_EVENT_STA_DISCONNECTED
             (Some 4) ?up) = [RE_WIFI_STA_DISCONNECTED (Some 4)]"
    using disconnect_notification
        [OF e(1), of WIFI_EVENT_STA_DISCONNECTED all_ok example_config "Some 4", THEN conjunct1]
      c(1) p(1) by simp
  have 2: "posted (wifiEventHandler_Disconnect all_ok example_config WIFI_EVENT_STA_DISCONNECTED
             (Some 4) ?half) = []"
    using disconnect_notification
        [OF e(2), of WIFI_EVENT_STA_DISCONNECTED all_ok example_config "Some 4",
          THEN conjunct2, THEN conjunct1]
      c(2) p(2) by simp
  show ?thesis
    using e c 1 2 by blast
qed

text \<open>
  C4. The attempt counter is written in three places only. Handling adapter-started or
  got-ip sets it to zero; \<^verbatim>\<open>wifiConnectSTA\<close> adds one just before it calls
  \<^verbatim>\<open>esp_wifi_connect\<close>, so one call of \<^verbatim>\<open>wifiConnectSTA\<close> adds at most one and adds exactly
  one when it returns true. Hence after every event, timer expiry or public call the
  counter is its old value (zero for the two resetting events) plus the number of
  \<^verbatim>\<open>esp_wifi_connect\<close> calls made meanwhile, modulo \<open>2 ^ 32\<close>; the same holds along any run
  without a resetting event.
\<close>

theorem attempt_counter_accounting:
  "wifiAttemptCount (perform env cfg a s) =
     (if resets a then 0 else wifiAttemptCount s)
       + of_nat (count_list (issued s (perform env cfg a s)) esp_wifi_connect)
   \<and> wifiAttemptCount (wifiEventHandler_GotIP env cfg event_data s) = 0
   \<and> wifiAttemptCount (snd (wifiConnectSTA env cfg s)) =
       wifiAttemptCount s
         + of_nat (count_list (issued s (snd (wifiConnectSTA env cfg s))) esp_wifi_connect)
   \<and> count_list (issued s (snd (wifiConnectSTA env cfg s))) esp_wifi_connect \<le> 1
   \<and> (fst (wifiConnectSTA env cfg s) \<longrightarrow>
        wifiAttemptCount (snd (wifiConnectSTA env cfg s)) = wifiAttemptCount s + 1)
   \<and> ((\<forall>a \<in> set as. \<not> resets a) \<longrightarrow>
        wifiAttemptCount (run env cfg as s) =
          wifiAttemptCount s + of_nat (count_list (issued s (run env cfg as s)) esp_wifi_connect))"
proof -
  let ?c = "snd (wifiConnectSTA env cfg s)"
  have st: "steady 0 s ?c"
    by (rule steady_ConnectSTA [OF steady_refl])
  then have pre: "prefix (calls s) (calls ?c)"
    by (simp add: steady_def)
  have c1: "wifiAttemptCount ?c =
       wifiAttemptCount s + of_nat (count_list (issued s ?c) esp_wifi_connect)"
    using account [OF st, of s] by simp
  have c2: "count_list (issued s ?c) esp_wifi_connect \<le> 1"
    using connect_connects(1) [of env cfg s] by (simp add: issued_connects [OF pre])
  have c3: "wifiAttemptCount ?c = wifiAttemptCount s + 1" if "fst (wifiConnectSTA env cfg s)"
    using connect_connects(2) [OF that] c1 by (simp add: issued_connects [OF pre])
  have r: "wifiAttemptCount (run env cfg as s) =
          wifiAttemptCount s + of_nat (count_list (issued s (run env cfg as s)) esp_wifi_connect)"
    if "\<forall>a \<in> set as. \<not> resets a"
    using account [OF steady_run [OF that, of s env cfg], of s] by simp
  show ?thesis
    using account_perform GotIP_count c1 c2 c3 r by blast
qed


theorem attempt_counter_accounting_witness:
  "resets Adapter_started
   \<and> wifiAttemptCount (perform all_ok example_config Adapter_started
         ((boot (Some 1))\<lparr>wifiStatusBits := Some 0\<rparr>)) = 1
   \<and> \<not> resets Link_connected
   \<and> \<not> resets (Disconnected WIFI_EVENT_STA_DISCONNECTED (Some 4))
   \<and> wifiAttemptCount (run all_ok example_config
         [Link_connected, Disconnected WIFI_EVENT_STA_DISCONNECTED (Some 4)]
         ((boot (Some 1))\<lparr>wifiStatusBits := Some 12, wifiCurrIndex := 1, wifiAttemptCount := 1\<rparr>)) = 2"
proof -
  let ?s = "(boot (Some 1))\<lparr>wifiStatusBits := Some 0\<rparr>"
  let ?t = "(boot (Some 1))\<lparr>wifiStatusBits := Some 12, wifiCurrIndex := 1, wifiAttemptCount := 1\<rparr>"
  let ?as = "[Link_connected, Disconnected WIFI_EVENT_STA_DISCONNECTED (Some 4)]"
  have r: "resets Adapter_started"
    by (simp add: resets_def)
  have n: "\<forall>a \<in> set ?as. \<not> resets a"
    by (simp add: resets_def)
  have i: "count_list (issued ?s (perform all_ok example_config Adapter_started ?s))
             esp_wifi_connect = 1"
    by code_simp
  have j: "count_list (issued ?t (run all_ok example_config ?as ?t)) esp_wifi_connect = 1"
    by code_simp
  have c: "wifiAttemptCount ?t = 1"
    by simp
  have 1: "wifiAttemptCount (perform all_ok example_config Adapter_started ?s) = 1"
    using attempt_counter_accounting
        [where env = all_ok and cfg = example_config and a = Adapter_started and s = ?s,
          THEN conjunct1]
      r i by simp
  have 2: "wifiAttemptCount (run all_ok example_config ?as ?t) = 2"
    using attempt_counter_accounting
        [where env = all_ok and cfg = example_config and as = ?as and s = ?t,
          THEN conjunct2, THEN conjunct2, THEN conjunct2, THEN conjunct2, THEN conjunct2]
      n j c by simp
  show ?thesis
    using r n 1 2 by simp
qed

text \<open>
  C2, as stated, fails: the got-ip handler sets GotIp without looking at Connected. After
  \<^verbatim>\<open>wifiStart\<close> and the adapter-started event, a got-ip event that is not preceded by
  link-connected leaves GotIp set and Connected clear.
\<close>

theorem got_ip_without_link:
  "wifiStatusGet (run all_ok example_config [Call_wifiStart, Adapter_started, Got_ip None]
                    (boot None)) AND WIFI_STA_GOT_IP = WIFI_STA_GOT_IP
   \<and> wifiStatusGet (run all_ok example_config [Call_wifiStart, Adapter_started, Got_ip None]
                    (boot None)) AND WIFI_STA_CONNECTED \<noteq> WIFI_STA_CONNECTED"
  by code_simp

text \<open>
  C2, amended. The initial state satisfies "GotIp set implies Connected set", and the
  property is kept by every event handler, timer expiry and public call, provided each
  got-ip event is handled in a state where the Connected bit is set. So it holds in every
  state reached by a run that delivers got-ip only while the link is connected.
\<close>

theorem link_invariant_in_order:
  "link_ok (boot stored)
   \<and> (link_ok s \<and> ordered env cfg as s \<longrightarrow> link_ok (run env cfg as s))
   \<and> (ordered env cfg as (boot stored) \<longrightarrow>
        (wifiStatusGet (run env cfg as (boot stored)) AND WIFI_STA_GOT_IP = WIFI_STA_GOT_IP \<longrightarrow>
         wifiStatusGet (run env cfg as (boot stored)) AND WIFI_STA_CONNECTED = WIFI_STA_CONNECTED))"
proof -
  have b: "link_ok (boot stored)"
    by (simp add: link_ok_bits wifiStatusGet_def boot_def)
  have r: "link_ok (run env cfg as t)" if "link_ok t" "ordered env cfg as t" for t
    using that by (rule link_run)
  show ?thesis
    using b r [of s] r [OF b] unfolding link_ok_def by blast
qed

theorem link_invariant_in_order_witness:
  "ordered all_ok example_config
     [Call_wifiStart, Adapter_started, Link_connected, Got_ip None,
      Disconnected WIFI_EVENT_STA_DISCONNECTED (Some 4)] (boot None)
   \<and> wifiIsConnected (run all_ok example_config
        [Call_wifiStart, Adapter_started, Link_connected, Got_ip None] (boot None))
   \<and> link_ok (run all_ok example_config
        [Call_wifiStart, Adapter_started, Link_connected, Got_ip None,
         Disconnected WIFI_EVENT_STA_DISCONNECTED (Some 4)] (boot None))"
proof -
  let ?as = "[Call_wifiStart, Adapter_started, Link_connected, Got_ip None,
      Disconnected WIFI_EVENT_STA_DISCONNECTED (Some 4)]"
  have o: "ordered all_ok example_config ?as (boot None)"
    by code_simp
  have c: "wifiIsConnected (run all_ok example_config
        [Call_wifiStart, Adapter_started, Link_connected, Got_ip None] (boot None))"
    by code_simp
  have "link_ok (run all_ok example_config ?as (boot None))"
    using link_invariant_in_order
        [where stored = None and s = "boot None" and env = all_ok and cfg = example_config
           and as = ?as]
      o by blast
  then show ?thesis
    using o c by blast
qed

text \<open>
  C8. Evaluation at the failing input. On a freshly booted module whose driver accepts
  every call, the first \<^verbatim>\<open>wifiStart\<close> returns true and leaves StaEnabled set. A second
  \<^verbatim>\<open>wifiStart\<close>, with no \<^verbatim>\<open>wifiStop\<close> and no event in between, clears StaEnabled in
  \<^verbatim>\<open>wifiStop\<close>, gets false from \<^verbatim>\<open>wifiLowLevelInit\<close> because the low-level
  initialisation bit is already set, and so returns false with StaEnabled clear.
\<close>

theorem second_wifiStart_disables:
  "fst (wifiStart all_ok example_config (boot None))
   \<and> wifiIsEnabled (snd (wifiStart all_ok example_config (boot None)))
   \<and> wifiStatusGet (snd (wifiStart all_ok example_config (boot None))) = 7
   \<and> \<not> fst (wifiStart all_ok example_config (snd (wifiStart all_ok example_config (boot None))))
   \<and> \<not> wifiIsEnabled
         (snd (wifiStart all_ok example_config (snd (wifiStart all_ok example_config (boot None)))))
   \<and> wifiStatusGet
         (snd (wifiStart all_ok example_config (snd (wifiStart all_ok example_config (boot None)))))
       = 3"
  by code_simp




end
